theory Spec2Isabelle
  imports Complex_Main "HOL-Library.AList"
begin

section \<open>playwright-sniff: data model (src/types.ts)\<close>

text \<open>
  JavaScript strings are modelled as \<^typ>\<open>string\<close>, one \<^typ>\<open>char\<close> per code unit.
  A JavaScript \<open>number\<close> that holds a millisecond count (a difference of two readings
  of \<open>Date.now()\<close>) or a status code is an \<^typ>\<open>int\<close>; the arithmetic of
  \<open>calculateAverage\<close> is carried out on doubles, see \<open>Number\<close> below.
\<close>

datatype LogLevel = DEBUG | INFO | WARN | ERROR

record ActionTiming =
  label :: string
  duration :: int
  slow :: bool
  failed :: bool

datatype failure_type = console | request | custom

record Failure =
  error :: "string option"
  ftype :: failure_type
  requestUrl :: "string option"
  requestStatus :: "int option"
  requestMethod :: "string option"
  metadata :: "(string \<times> string) list"

record ShowStopper =
  ss_label :: string
  criticalError :: string
  screenshot :: "string option"

record RequestDetails =
  url :: string
  rd_duration :: int
  rd_method :: string

record SniffReport =
  timestamp :: string
  passed :: bool
  r_showStoppers :: "ShowStopper list"
  r_slowThreshold :: int
  pageLoadSteps :: "ActionTiming list"
  avgLoadTime :: "string option"
  avgRequestTime :: "string option"
  slowRequests :: "RequestDetails list"
  r_failures :: "Failure list"
  r_testName :: "string option"

record TestReport =
  reportData :: "SniffReport list"

record SniffOptions =
  slowThreshold :: int
  captureScreenshots :: bool
  screenshotDir :: string
  outputFile :: string
  outputHTML :: string

section \<open>Utilities (src/utils.ts)\<close>

subsection \<open>cleanErrorMessage\<close>

text \<open>
  A thrown value, as \<open>cleanErrorMessage\<close> reads it. It is either an \<open>Error\<close> object, of
  which the code reads \<open>message\<close>, or any other value, of which it reads \<open>String(raw)\<close>:
  \<^item> \<open>Error_object m\<close> is an error whose \<open>message\<close> is the string \<open>m\<close>;
  \<^item> \<open>Error_without_message\<close> is an error whose \<open>message\<close> is not a string (a number
    assigned to it, say): \<open>message.replace\<close> is then not a function and the call throws
    a \<open>TypeError\<close>;
  \<^item> \<open>Other_value s\<close> is a value that \<open>String\<close> turns into \<open>s\<close>;
  \<^item> \<open>Unprintable_value\<close> is a value on which \<open>String\<close> itself throws a \<open>TypeError\<close>
    (an object with no \<open>toString\<close>, as \<open>Object.create(null)\<close>).
\<close>

datatype js_value =
    Error_object string
  | Error_without_message
  | Other_value string
  | Unprintable_value

text \<open>What a call can throw: the model's exceptions.\<close>

datatype exn =
    Showstoppers_error
  | Action_error js_value
  | Type_error
  | Render_error
  | Process_exit int

definition is_sgr_param :: "char \<Rightarrow> bool" where
  "is_sgr_param c = (c \<in> set ''0123456789;'')"

text \<open>
  \<open>match_sgr cs\<close> matches the rest of the pattern \<open>\[[0-9;]*m\<close> at the head of \<open>cs\<close>
  (the escape character has been read) and returns what follows the match.
\<close>

definition match_sgr :: "string \<Rightarrow> string option" where
  "match_sgr cs =
     (case cs of
        [] \<Rightarrow> None
      | c # rest \<Rightarrow>
          if c = CHR ''['' then
            (case dropWhile is_sgr_param rest of
               [] \<Rightarrow> None
             | d # after \<Rightarrow> if d = CHR ''m'' then Some after else None)
          else None)"

lemma match_sgr_shorter: "match_sgr cs = Some after \<Longrightarrow> length after < length cs"
proof -
  assume m: "match_sgr cs = Some after"
  then obtain c rest where cs: "cs = c # rest"
    by (cases cs) (simp_all add: match_sgr_def)
  from m cs obtain d where d: "dropWhile is_sgr_param rest = d # after"
    by (auto simp: match_sgr_def split: if_splits list.splits)
  have "length (dropWhile is_sgr_param rest) \<le> length rest"
    by (rule length_dropWhile_le)
  with d cs show ?thesis by simp
qed

text \<open>\<open>message.replace(/\u001b\[[0-9;]*m/g, '')\<close>: one pass, leftmost matches removed.\<close>

function strip_ansi :: "string \<Rightarrow> string" where
  "strip_ansi [] = []"
| "strip_ansi (c # cs) =
     (if c = CHR 0x1B then
        (case match_sgr cs of
           Some after \<Rightarrow> strip_ansi after
         | None \<Rightarrow> c # strip_ansi cs)
      else c # strip_ansi cs)"
  by pat_completeness auto
termination
  by (relation "measure length") (auto dest: match_sgr_shorter)

text \<open>
  The body of \<open>cleanErrorMessage\<close> returns at \<open>return stripped\<close>: the line break after it
  ends the statement, and the statement \<open>return stripped.split('\n')[0]\<close> below it is
  never reached. The function has no \<open>try\<close>: what reading the message throws, it throws.
\<close>

definition cleanErrorMessage :: "js_value \<Rightarrow> exn + string" where
  "cleanErrorMessage raw =
     (case raw of
        Error_object m \<Rightarrow> let message = m; stripped = strip_ansi message in Inr stripped
      | Error_without_message \<Rightarrow> Inl Type_error
      | Other_value s \<Rightarrow> let message = s; stripped = strip_ansi message in Inr stripped
      | Unprintable_value \<Rightarrow> Inl Type_error)"

subsection \<open>Rendering integers\<close>

definition digit_char :: "nat \<Rightarrow> char" where
  "digit_char d = ''0123456789'' ! (d mod 10)"

text \<open>The decimal digits of a natural number, as template literals print an integer.\<close>

function show_nat :: "nat \<Rightarrow> string" where
  "show_nat n = (if n < 10 then [digit_char n] else show_nat (n div 10) @ [digit_char (n mod 10)])"
  by pat_completeness auto
termination
  by (relation "measure id") auto

declare show_nat.simps [simp del]

definition show_int :: "int \<Rightarrow> string" where
  "show_int i = (if i < 0 then ''-'' @ show_nat (nat (- i)) else show_nat (nat i))"

subsection \<open>Numbers\<close>

text \<open>
  A JavaScript \<open>number\<close> is an IEEE 754 double: a finite value, which is a rational, one
  of the two infinities, or NaN. The zero with a minus sign is not told from zero:
  \<open>toFixed\<close> prints both alike, and a sum that starts at \<open>0\<close> is never the negative
  zero.
\<close>

datatype Number = Finite rat | Pos_infinity | Neg_infinity | NaN

text \<open>The integer nearest to \<open>y\<close>, the even one of two.\<close>

definition round_even :: "rat \<Rightarrow> int" where
  "round_even y =
     (let f = \<lfloor>y\<rfloor>; d = y - of_int f
      in if d < 1 / 2 then f else if 1 / 2 < d then f + 1 else if even f then f else f + 1)"

text \<open>The number of binary digits of \<open>n\<close>.\<close>

function bit_length :: "nat \<Rightarrow> nat" where
  "bit_length n = (if n = 0 then 0 else Suc (bit_length (n div 2)))"
  by pat_completeness auto
termination
  by (relation "measure id") auto

declare bit_length.simps [simp del]

text \<open>
  The result of an arithmetic operation is the double nearest to the exact result, the
  one with an even significand of two (round to nearest, ties to even). The doubles are
  the multiples \<open>m * 2^e / 2^1074\<close> with \<open>m < 2^53\<close> that are below \<open>2^1024\<close>: for
  \<open>x \<ge> 0\<close>, \<open>round_magnitude x\<close> scales \<open>x\<close> by \<open>2^1074\<close>, keeps the 53 leading binary
  digits of the integer part (all of them below \<open>2^53\<close>, where the doubles are
  subnormal), rounds and scales back; a result of \<open>2^1024\<close> or more overflows, which is
  \<open>None\<close>.
\<close>

definition round_magnitude :: "rat \<Rightarrow> rat option" where
  "round_magnitude x =
     (let y = x * 2 ^ 1074;
          e = bit_length (nat \<lfloor>y\<rfloor>) - 53;
          r = of_int (round_even (y / 2 ^ e)) * 2 ^ e / 2 ^ 1074
      in if 2 ^ 1024 \<le> r then None else Some r)"

definition to_number :: "rat \<Rightarrow> Number" where
  "to_number x =
     (if x < 0 then
        (case round_magnitude (- x) of None \<Rightarrow> Neg_infinity | Some r \<Rightarrow> Finite (- r))
      else
        (case round_magnitude x of None \<Rightarrow> Pos_infinity | Some r \<Rightarrow> Finite r))"

text \<open>
  A millisecond count as a number: an integer below \<open>2^53\<close> in magnitude is a double
  (\<open>to_number_nat\<close> below).
\<close>

definition number_of_int :: "int \<Rightarrow> Number" where
  "number_of_int i = to_number (of_int i)"

text \<open>\<open>a + b\<close> on numbers.\<close>

fun js_add :: "Number \<Rightarrow> Number \<Rightarrow> Number" where
  "js_add (Finite x) (Finite y) = to_number (x + y)"
| "js_add NaN b = NaN"
| "js_add a NaN = NaN"
| "js_add Pos_infinity Neg_infinity = NaN"
| "js_add Neg_infinity Pos_infinity = NaN"
| "js_add Pos_infinity b = Pos_infinity"
| "js_add a Pos_infinity = Pos_infinity"
| "js_add Neg_infinity b = Neg_infinity"
| "js_add a Neg_infinity = Neg_infinity"

text \<open>\<open>a / n\<close> for the length \<open>n\<close> of an array, which is a double as it is.\<close>

fun js_divide_by :: "Number \<Rightarrow> nat \<Rightarrow> Number" where
  "js_divide_by (Finite x) n =
     (if n = 0 then (if x = 0 then NaN else if 0 < x then Pos_infinity else Neg_infinity)
      else to_number (x / of_nat n))"
| "js_divide_by NaN n = NaN"
| "js_divide_by Pos_infinity n = Pos_infinity"
| "js_divide_by Neg_infinity n = Neg_infinity"

subsection \<open>Rendering numbers\<close>

text \<open>
  \<open>Number.prototype.toString\<close> for a double at or above \<open>10^21\<close>, which is an integer
  \<open>n\<close>. ECMAScript prints the digits of the integer \<open>v\<close> with the fewest significant
  digits that reads back as the same double, the one closest to \<open>n\<close> when several do
  (the even one of two), in exponent notation. \<open>reads_back v n\<close> says that \<open>v\<close> rounds
  to the double \<open>n\<close>. \<open>shortest n j\<close> looks for \<open>v\<close> among the multiples of \<open>10^j\<close>,
  from the largest \<open>j\<close> down: when any multiple of \<open>10^j\<close> reads back as \<open>n\<close>, one of
  the two multiples next to \<open>n\<close> does.
\<close>

definition reads_back :: "nat \<Rightarrow> nat \<Rightarrow> bool" where
  "reads_back v n = (to_number (of_nat v) = Finite (of_nat n))"

primrec shortest :: "nat \<Rightarrow> nat \<Rightarrow> nat" where
  "shortest n 0 = n"
| "shortest n (Suc j) =
     (let u = 10 ^ Suc j; lo = (n div u) * u; hi = lo + u
      in if reads_back lo n \<and> reads_back hi n then
           (if n - lo < hi - n then lo
            else if hi - n < n - lo then hi
            else if even (n div u) then lo else hi)
         else if reads_back lo n then lo
         else if reads_back hi n then hi
         else shortest n j)"

text \<open>
  The exponent notation of an integer \<open>v\<close> of more than 21 digits: its significant
  digits \<open>d\<^sub>1.d\<^sub>2\<dots>d\<^sub>k\<close> (the trailing zeros removed, no point after a single digit),
  then \<open>e+\<close> and the decimal exponent.
\<close>

definition exponent_notation :: "nat \<Rightarrow> string" where
  "exponent_notation v =
     (let ds = show_nat v;
          s = rev (dropWhile (\<lambda>c. c = CHR ''0'') (rev ds));
          e = show_nat (length ds - 1)
      in if length s \<le> 1 then s @ ''e+'' @ e
         else take 1 s @ ''.'' @ drop 1 s @ ''e+'' @ e)"

definition toString_large :: "rat \<Rightarrow> string" where
  "toString_large x =
     (let n = nat \<lfloor>x\<rfloor>
      in exponent_notation (shortest n (length (show_nat n) - 1)))"

text \<open>
  \<open>Number.prototype.toFixed(f)\<close> as ECMAScript defines it, for \<open>0 \<le> f \<le> 100\<close>: a number
  that is not finite is printed by \<open>toString\<close>; a negative value is printed as \<open>-\<close> and
  its negation; a value at or above \<open>10^21\<close> is printed by \<open>toString\<close>; otherwise \<open>n\<close>
  is the integer for which \<open>n / 10^f\<close> is closest to the exact value of the double (the
  larger one of two), and its digits are padded with zeros to \<open>f + 1\<close> places and split
  by a point before the last \<open>f\<close>.
\<close>

definition toFixed :: "Number \<Rightarrow> nat \<Rightarrow> string" where
  "toFixed v f =
     (case v of
        NaN \<Rightarrow> ''NaN''
      | Pos_infinity \<Rightarrow> ''Infinity''
      | Neg_infinity \<Rightarrow> ''-Infinity''
      | Finite x0 \<Rightarrow>
          let s = (if x0 < 0 then ''-'' else []);
              x = (if x0 < 0 then - x0 else x0)
          in if 10 ^ 21 \<le> x then s @ toString_large x
             else
               let n = nat \<lfloor>x * 10 ^ f + 1 / 2\<rfloor>;
                   m = show_nat n;
                   k = length m;
                   m' = (if k \<le> f then replicate (f + 1 - k) CHR ''0'' @ m else m);
                   k' = (if k \<le> f then f + 1 else k)
               in if f \<noteq> 0 then s @ take (k' - f) m' @ ''.'' @ drop (k' - f) m'
                  else s @ m)"

subsection \<open>calculateAverage\<close>

text \<open>
  \<open>values.reduce((acc, val) => acc + val, 0)\<close> adds from the left, starting at \<open>0\<close>, and
  every sum is rounded to a double; so is the quotient by the length.
\<close>

definition calculateAverage :: "Number list \<Rightarrow> string option" where
  "calculateAverage values =
     (if length values = 0 then None
      else
        let total = foldl (\<lambda>acc val. js_add acc val) (Finite 0) values
        in Some (toFixed (js_divide_by total (length values)) 2))"

section \<open>The monitor (src/monitor.ts)\<close>

subsection \<open>State\<close>

text \<open>
  What the report files hold. \<open>JSON.parse\<close> of a file written by \<open>saveReport\<close> gives
  back the object that was written: \<open>Json_report pid reports\<close> is
  \<open>{reportData: reports, testRunnerPid: pid}\<close>. \<open>Json_other\<close> is any other JSON object
  (no \<open>reportData\<close> array), \<open>Not_json e\<close> a file whose reading or parsing throws \<open>e\<close>,
  and \<open>Html_report d\<close> the text \<open>generateReportHTML(d)\<close> of src/html-report.ts, which is
  not JSON.
\<close>

datatype file_content =
    Json_report "string option" "SniffReport list"
  | Json_other
  | Not_json string
  | Html_report "SniffReport list"

text \<open>
  The fields of the class \<open>PlaywrightSniff\<close>, and what the object acts on: \<open>listeners\<close>
  counts the calls of \<open>setupSniffingListeners\<close> on \<open>page\<close>, each of which adds one
  listener per event with \<open>page.on\<close> (no code removes a listener); \<open>files\<close> is the file
  system, by path; \<open>logged\<close> is what the logger has been given. A call of \<open>fs\<close> that
  the source does not guard is taken to succeed, and the logger to return. The field
  \<open>reportData\<close> of the class is written by \<open>start\<close> and never read, and the directory of
  the screenshots plays no part in what follows: both are left out.
\<close>

record PlaywrightSniff =
  options :: SniffOptions
  failures :: "Failure list"
  showStoppers :: "ShowStopper list"
  requestStartTimes :: "(string \<times> int) list"
  requestDurations :: "int list"
  detailedRequestDurations :: "RequestDetails list"
  timings :: "ActionTiming list"
  isMonitoring :: bool
  testName :: "string option"
  listeners :: nat
  files :: "(string \<times> file_content) list"
  logged :: "(string \<times> LogLevel) list"

definition DEFAULT_OPTIONS :: SniffOptions where
  "DEFAULT_OPTIONS =
     \<lparr>slowThreshold = 2000, captureScreenshots = True, screenshotDir = ''./screenshots'',
      outputFile = ''sniffing-results.json'', outputHTML = ''sniffing-report.html''\<rparr>"

text \<open>
  The constructor, given the options after \<open>{...DEFAULT_OPTIONS, ...config.options}\<close> and
  the file system it finds. The field initialisers leave every collection empty and
  \<open>testName\<close> undefined.
\<close>

definition new_sniff :: "SniffOptions \<Rightarrow> (string \<times> file_content) list \<Rightarrow> PlaywrightSniff" where
  "new_sniff opts fs =
     \<lparr>options = opts, failures = [], showStoppers = [], requestStartTimes = [],
      requestDurations = [], detailedRequestDurations = [], timings = [],
      isMonitoring = False, testName = None, listeners = 0, files = fs, logged = []\<rparr>"

definition logger :: "string \<Rightarrow> LogLevel \<Rightarrow> PlaywrightSniff \<Rightarrow> PlaywrightSniff" where
  "logger message level s = s\<lparr>logged := logged s @ [(message, level)]\<rparr>"

text \<open>A template literal prints an undefined \<open>testName\<close> as \<open>undefined\<close>.\<close>

definition show_name :: "string option \<Rightarrow> string" where
  "show_name n = (case n of None \<Rightarrow> ''undefined'' | Some t \<Rightarrow> t)"

definition setTestName :: "string \<Rightarrow> PlaywrightSniff \<Rightarrow> PlaywrightSniff" where
  "setTestName name s = s\<lparr>testName := Some name\<rparr>"

definition hasShowStoppers :: "PlaywrightSniff \<Rightarrow> bool" where
  "hasShowStoppers s = (length (showStoppers s) > 0)"

definition getShowStoppers :: "PlaywrightSniff \<Rightarrow> ShowStopper list" where
  "getShowStoppers s = showStoppers s"

subsection \<open>start\<close>

definition setupSniffingListeners :: "PlaywrightSniff \<Rightarrow> PlaywrightSniff" where
  "setupSniffingListeners s = s\<lparr>listeners := Suc (listeners s)\<rparr>"

definition start :: "PlaywrightSniff \<Rightarrow> PlaywrightSniff" where
  "start s =
     (if isMonitoring s then logger ''Monitoring already started'' WARN s
      else
        setupSniffingListeners
          (logger (''Started monitoring Playwright actions for '' @ show_name (testName s)) INFO
             (s\<lparr>failures := [], showStoppers := [], requestStartTimes := [],
                requestDurations := [], detailedRequestDurations := [], timings := [],
                isMonitoring := True\<rparr>)))"

subsection \<open>Screenshots\<close>

text \<open>
  \<open>captureErrorScreenshot\<close> asks the driver for a screenshot inside a \<open>try\<close>: the driver
  either writes it, and the path is returned, or throws, and the error is logged and
  \<open>undefined\<close> returned. The driver's answer is an input of the model.
\<close>

datatype shot_result = Captured string | Capture_failed string

definition captureErrorScreenshot ::
  "shot_result \<Rightarrow> PlaywrightSniff \<Rightarrow> string option \<times> PlaywrightSniff" where
  "captureErrorScreenshot shot s =
     (case shot of
        Captured filePath \<Rightarrow> (Some filePath, s)
      | Capture_failed e \<Rightarrow>
          (None, logger (''Failed to capture error screenshot: '' @ e) ERROR s))"

subsection \<open>measureAction\<close>

text \<open>
  The action is a callback: the model takes how it ended and the milliseconds
  \<open>Date.now() - start\<close> read when it ended. What the action itself does to the monitor
  while it runs (page events, calls of the monitor) are steps of their own.

  The \<open>catch\<close> block calls \<open>cleanErrorMessage(error)\<close> first and outside any \<open>try\<close>:
  when that call throws, \<open>measureAction\<close> rejects with what it threw, before anything is
  recorded.
\<close>

datatype action_outcome = Resolved | Rejected js_value

definition measureAction ::
  "action_outcome \<Rightarrow> string \<Rightarrow> int \<Rightarrow> shot_result \<Rightarrow> PlaywrightSniff
     \<Rightarrow> (exn + unit) \<times> PlaywrightSniff" where
  "measureAction action lbl elapsed shot s =
     (if \<not> isMonitoring s then
        (case action of Resolved \<Rightarrow> Inr () | Rejected e \<Rightarrow> Inl (Action_error e),
         logger ''Monitoring not started'' WARN s)
      else
        (case action of
           Resolved \<Rightarrow>
             let duration = elapsed;
                 isSlow = (duration > slowThreshold (options s));
                 s1 = s\<lparr>timings := timings s @
                        [\<lparr>label = lbl, duration = duration, slow = isSlow, failed = False\<rparr>]\<rparr>;
                 s2 = (if isSlow then
                         logger (''Slow action detected: '' @ lbl @ '' took '' @ show_int duration
                                 @ ''ms (threshold: '' @ show_int (slowThreshold (options s)) @ ''ms)'')
                           WARN s1
                       else s1)
             in (Inr (), s2)
         | Rejected e \<Rightarrow>
             (case cleanErrorMessage e of
                Inl thrown \<Rightarrow> (Inl thrown, s)
              | Inr errorMessage \<Rightarrow>
                  let s1 = s\<lparr>timings := timings s @
                             [\<lparr>label = lbl, duration = 0, slow = False, failed = True\<rparr>]\<rparr>;
                      s2 = s1\<lparr>showStoppers := showStoppers s1 @
                             [\<lparr>ss_label = lbl, criticalError = errorMessage,
                               screenshot = None\<rparr>]\<rparr>;
                      s3 = logger (''Showstopper detected during '' @ [CHR 0x22] @ lbl
                                   @ [CHR 0x22] @ '': '' @ errorMessage) ERROR s2;
                      s4 = (if captureScreenshots (options s) then
                              snd (captureErrorScreenshot shot s3)
                            else s3)
                  in (Inr (), s4))))"

subsection \<open>addFailure and addShowStopper\<close>

text \<open>
  \<open>addFailure\<close> spreads \<open>metadata\<close> into the record; the model keeps it as a list of
  its own (a key of \<open>metadata\<close> named like a field of the record is not followed).
\<close>

definition addFailure ::
  "string \<Rightarrow> failure_type \<Rightarrow> (string \<times> string) list \<Rightarrow> PlaywrightSniff \<Rightarrow> PlaywrightSniff" where
  "addFailure err ty md s =
     (if \<not> isMonitoring s then logger ''Monitoring not started'' WARN s
      else
        logger (''Failure added: '' @ err) WARN
          (s\<lparr>failures := failures s @
               [\<lparr>error = Some err, ftype = ty, requestUrl = None, requestStatus = None,
                 requestMethod = None, metadata = md\<rparr>]\<rparr>))"

definition addShowStopper ::
  "string \<Rightarrow> string \<Rightarrow> shot_result \<Rightarrow> PlaywrightSniff \<Rightarrow> PlaywrightSniff" where
  "addShowStopper lbl critical shot s =
     (if \<not> isMonitoring s then logger ''Monitoring not started'' WARN s
      else
        let showStopper = \<lparr>ss_label = lbl, criticalError = critical, screenshot = None\<rparr>;
            (showStopper1, s1) =
              (if captureScreenshots (options s) then
                 (case captureErrorScreenshot shot s of
                    (Some screenshotPath, s') \<Rightarrow>
                      (if screenshotPath \<noteq> [] then showStopper\<lparr>screenshot := Some screenshotPath\<rparr>
                       else showStopper, s')
                  | (None, s') \<Rightarrow> (showStopper, s'))
               else (showStopper, s));
            s2 = s1\<lparr>showStoppers := showStoppers s1 @ [showStopper1]\<rparr>
        in logger (''Showstopper added: '' @ lbl @ '' - '' @ critical) ERROR s2)"

subsection \<open>getResults\<close>

text \<open>
  \<open>Array.prototype.sort\<close> with a comparator is stable: elements that compare equal keep
  their order. It is modelled as the insertion sort that puts an element before the
  first one it does not compare greater than.
\<close>

fun insert_sorted :: "('a \<Rightarrow> 'a \<Rightarrow> int) \<Rightarrow> 'a \<Rightarrow> 'a list \<Rightarrow> 'a list" where
  "insert_sorted cmp x [] = [x]"
| "insert_sorted cmp x (y # ys) =
     (if cmp x y \<le> 0 then x # y # ys else y # insert_sorted cmp x ys)"

definition js_sort :: "('a \<Rightarrow> 'a \<Rightarrow> int) \<Rightarrow> 'a list \<Rightarrow> 'a list" where
  "js_sort cmp xs = foldr (insert_sorted cmp) xs []"

text \<open>
  The array methods \<open>getResults\<close> calls, each with what it returns and what it leaves in
  the array it is called on: \<open>filter\<close> and \<open>map\<close> build a new array and leave theirs as
  it is; \<open>sort\<close> orders its array in place and returns that array.
\<close>

definition array_filter :: "('a \<Rightarrow> bool) \<Rightarrow> 'a list \<Rightarrow> 'a list \<times> 'a list" where
  "array_filter p xs = (filter p xs, xs)"

definition array_map :: "('a \<Rightarrow> 'b) \<Rightarrow> 'a list \<Rightarrow> 'b list \<times> 'a list" where
  "array_map f xs = (map f xs, xs)"

definition array_sort :: "('a \<Rightarrow> 'a \<Rightarrow> int) \<Rightarrow> 'a list \<Rightarrow> 'a list \<times> 'a list" where
  "array_sort cmp xs = (js_sort cmp xs, js_sort cmp xs)"

text \<open>
  The body of \<open>getResults\<close>, statement by statement, with the monitor it leaves:
  \<open>now\<close> is \<open>new Date().toLocaleString()\<close>, the clock as the call reads it. Every array
  of the monitor that a method is called on is written back as the method leaves it;
  \<open>sort\<close> is called on the array that \<open>filter\<close> has built, which no field holds.
  \<open>calculateAverage\<close> reads its argument only. No statement of the body can throw:
  the callbacks are total, \<open>reduce\<close> has an initial value and \<open>toFixed\<close> is given 2.
\<close>

definition getResults_call :: "string \<Rightarrow> PlaywrightSniff \<Rightarrow> TestReport \<times> PlaywrightSniff" where
  "getResults_call now s =
     (let (timingsPassed, timings1) = array_filter (\<lambda>t. \<not> failed t) (timings s);
          s1 = s\<lparr>timings := timings1\<rparr>;
          (durations, timingsPassed1) = array_map (\<lambda>t. number_of_int (duration t)) timingsPassed;
          avgLoad = calculateAverage durations;
          avgRequest = calculateAverage (map number_of_int (requestDurations s1));
          (filtered, detailed1) =
            array_filter (\<lambda>r. rd_duration r > slowThreshold (options s1))
              (detailedRequestDurations s1);
          s2 = s1\<lparr>detailedRequestDurations := detailed1\<rparr>;
          (slowReqs, filtered1) = array_sort (\<lambda>a b. rd_duration b - rd_duration a) filtered
      in (\<lparr>reportData =
            [\<lparr>timestamp = now,
              passed = (length (showStoppers s2) = 0),
              r_showStoppers = showStoppers s2,
              r_slowThreshold = slowThreshold (options s2),
              pageLoadSteps = timings s2,
              avgLoadTime = avgLoad,
              avgRequestTime = avgRequest,
              slowRequests = slowReqs,
              r_failures = failures s2,
              r_testName = testName s2\<rparr>]\<rparr>,
          s2))"

text \<open>The report that \<open>getResults\<close> returns.\<close>

definition getResults :: "string \<Rightarrow> PlaywrightSniff \<Rightarrow> TestReport" where
  "getResults now s = fst (getResults_call now s)"

subsection \<open>saveReport and generateHTMLReport\<close>

text \<open>
  \<open>saveReport outputFile now currentPpid\<close>: \<open>currentPpid\<close> is
  \<open>process.ppid?.toString()\<close>. An empty string is falsy, for \<open>outputFile\<close> as for a
  stored \<open>testRunnerPid\<close>.
\<close>

definition saveReport ::
  "string option \<Rightarrow> string \<Rightarrow> string option \<Rightarrow> PlaywrightSniff \<Rightarrow> string \<times> PlaywrightSniff" where
  "saveReport outputFile_arg now currentPpid s =
     (let (results, s) = getResults_call now s;
          filePath = (case outputFile_arg of
                        Some f \<Rightarrow> if f \<noteq> [] then f else outputFile (options s)
                      | None \<Rightarrow> outputFile (options s));
          (existingData, shouldClear, s1) =
            (case map_of (files s) filePath of
               None \<Rightarrow> ([], False, s)
             | Some (Json_report pid reports) \<Rightarrow>
                 if pid \<noteq> None \<and> pid \<noteq> Some [] \<and> pid \<noteq> currentPpid then ([], True, s)
                 else (reports, False, s)
             | Some Json_other \<Rightarrow> ([], False, s)
             | Some (Not_json e) \<Rightarrow>
                 ([], False, logger (''Error reading existing report: '' @ e) ERROR s)
             | Some (Html_report d) \<Rightarrow>
                 ([], False, logger (''Error reading existing report: SyntaxError'') ERROR s));
          written = Json_report currentPpid (existingData @ reportData results);
          action = (if map_of (files s) filePath \<noteq> None \<and> \<not> shouldClear then ''updated''
                    else ''created'');
          s2 = s1\<lparr>files := AList.update filePath written (files s1)\<rparr>
      in (filePath, logger (''Report '' @ action @ '' at '' @ filePath) INFO s2))"

text \<open>
  \<open>generateHTMLReport\<close> reads \<open>options.outputFile\<close>; when the file cannot be read or
  parsed it logs and calls \<open>process.exit(1)\<close>. \<open>generateReportHTML\<close> reads
  \<open>data.reportData[0]\<close>, so it throws on an object without reports.
\<close>

definition generateHTMLReport ::
  "string option \<Rightarrow> PlaywrightSniff \<Rightarrow> (exn + unit) \<times> PlaywrightSniff" where
  "generateHTMLReport outputHTML_arg s =
     (let filePath = (case outputHTML_arg of
                        Some f \<Rightarrow> if f \<noteq> [] then f else outputHTML (options s)
                      | None \<Rightarrow> outputHTML (options s));
          jsonFilePath = outputFile (options s);
          render = (\<lambda>reports.
            if reports = [] then (Inl Render_error, s)
            else
              let action = (if map_of (files s) filePath \<noteq> None then ''updated'' else ''created'');
                  s1 = s\<lparr>files := AList.update filePath (Html_report reports) (files s)\<rparr>
              in (Inr (), logger (''HTML Report '' @ action @ '' at '' @ filePath) INFO s1))
      in case map_of (files s) jsonFilePath of
           Some (Json_report pid reports) \<Rightarrow> render reports
         | Some Json_other \<Rightarrow> (Inl Render_error, s)
         | Some (Not_json e) \<Rightarrow>
             (Inl (Process_exit 1), logger (''Error reading existing json report: '' @ e) ERROR s)
         | Some (Html_report d) \<Rightarrow>
             (Inl (Process_exit 1),
              logger (''Error reading existing json report: SyntaxError'') ERROR s)
         | None \<Rightarrow>
             (Inl (Process_exit 1),
              logger (''Error reading existing json report: ENOENT'') ERROR s))"

subsection \<open>stop\<close>

definition stop ::
  "string \<Rightarrow> string option \<Rightarrow> PlaywrightSniff \<Rightarrow> (exn + unit) \<times> PlaywrightSniff" where
  "stop now currentPpid s =
     (if \<not> isMonitoring s then (Inr (), logger ''Monitoring not started'' WARN s)
      else
        let s1 = snd (saveReport None now currentPpid s)
        in case generateHTMLReport None s1 of
             (Inl e, s2) \<Rightarrow> (Inl e, s2)
           | (Inr u, s2) \<Rightarrow>
               let s3 = s2\<lparr>isMonitoring := False\<rparr>;
                   s4 = logger (''Stopped monitoring Playwright actions for ''
                                @ show_name (testName s3)) INFO s3
               in if hasShowStoppers s4 then (Inl Showstoppers_error, s4) else (Inr (), s4))"

subsection \<open>The listeners of setupSniffingListeners\<close>

text \<open>
  A page event, with what its listener reads from the driver and the clock:
  \<^item> \<open>Console_event type text\<close>;
  \<^item> \<open>Requestfailed_event url method status errorText\<close>: \<open>status\<close> is \<open>None\<close> when the
    request has no response, \<open>errorText\<close> is \<open>None\<close> when \<open>request.failure()\<close> is null;
  \<^item> \<open>Request_event url now\<close> and \<open>Requestfinished_event url method now\<close>, \<open>now\<close> being
    \<open>Date.now()\<close>;
  \<^item> \<open>Response_event status url method body shot\<close>: \<open>body\<close> is \<open>None\<close> when
    \<open>response.text()\<close> rejects, \<open>shot\<close> is the driver's answer to the screenshot.
\<close>

datatype page_event =
    Console_event string string
  | Requestfailed_event string string "int option" "string option"
  | Request_event string int
  | Requestfinished_event string string int
  | Response_event int string string "string option" shot_result

definition on_console :: "string \<Rightarrow> string \<Rightarrow> PlaywrightSniff \<Rightarrow> PlaywrightSniff" where
  "on_console ty txt s =
     (if ty = ''error'' then
        s\<lparr>failures := failures s @
             [\<lparr>error = Some txt, ftype = console, requestUrl = None, requestStatus = None,
               requestMethod = None, metadata = []\<rparr>]\<rparr>
      else s)"

definition on_requestfailed ::
  "string \<Rightarrow> string \<Rightarrow> int option \<Rightarrow> string option \<Rightarrow> PlaywrightSniff \<Rightarrow> PlaywrightSniff" where
  "on_requestfailed u m status failureText s =
     (let errorText = (case failureText of
                         Some e \<Rightarrow> if e \<noteq> [] then e else ''Unknown error''
                       | None \<Rightarrow> ''Unknown error'')
      in s\<lparr>failures := failures s @
              [\<lparr>error = Some errorText, ftype = request, requestUrl = Some u,
                requestStatus = (case status of
                                   Some n \<Rightarrow> if n \<noteq> 0 then Some n else None
                                 | None \<Rightarrow> None),
                requestMethod = Some m, metadata = []\<rparr>]\<rparr>)"

definition on_request :: "string \<Rightarrow> int \<Rightarrow> PlaywrightSniff \<Rightarrow> PlaywrightSniff" where
  "on_request u now s = s\<lparr>requestStartTimes := AList.update u now (requestStartTimes s)\<rparr>"

definition on_requestfinished ::
  "string \<Rightarrow> string \<Rightarrow> int \<Rightarrow> PlaywrightSniff \<Rightarrow> PlaywrightSniff" where
  "on_requestfinished u m now s =
     (case map_of (requestStartTimes s) u of
        Some started \<Rightarrow>
          if started \<noteq> 0 then
            let duration = now - started
            in s\<lparr>requestDurations := requestDurations s @ [duration],
                 detailedRequestDurations := detailedRequestDurations s @
                   [\<lparr>url = u, rd_duration = duration, rd_method = m\<rparr>]\<rparr>
          else s
      | None \<Rightarrow> s)"

definition on_response ::
  "int \<Rightarrow> string \<Rightarrow> string \<Rightarrow> string option \<Rightarrow> shot_result \<Rightarrow> PlaywrightSniff
     \<Rightarrow> PlaywrightSniff" where
  "on_response status u m text shot s =
     (if status \<ge> 500 \<and> status < 600 then
        let body = (case text of Some b \<Rightarrow> b | None \<Rightarrow> ''[body unreadable]'')
        in addShowStopper (m @ '' - '' @ u)
             (''Status: '' @ show_int status @ '' - Body: '' @ take 100 body @ ''...'') shot s
      else s)"

fun listener :: "page_event \<Rightarrow> PlaywrightSniff \<Rightarrow> PlaywrightSniff" where
  "listener (Console_event ty txt) s = on_console ty txt s"
| "listener (Requestfailed_event u m status failureText) s = on_requestfailed u m status failureText s"
| "listener (Request_event u now) s = on_request u now s"
| "listener (Requestfinished_event u m now) s = on_requestfinished u m now s"
| "listener (Response_event status u m text shot) s = on_response status u m text shot s"

text \<open>The page calls every listener registered for the event, one after the other.\<close>

definition emit :: "page_event \<Rightarrow> PlaywrightSniff \<Rightarrow> PlaywrightSniff" where
  "emit ev s = (listener ev ^^ listeners s) s"

subsection \<open>Sessions\<close>

text \<open>
  The calls a test makes on a monitor and the events its page emits, and the state
  after a sequence of them on a new monitor. \<open>hasShowStoppers\<close> and
  \<open>getShowStoppers\<close> return what a field holds and are no steps.
\<close>

datatype call =
    Start
  | Stop string "string option"
  | MeasureAction action_outcome string int shot_result
  | AddFailure string failure_type "(string \<times> string) list"
  | AddShowStopper string string shot_result
  | SetTestName string
  | SaveReport "string option" string "string option"
  | GenerateHTMLReport "string option"
  | GetResults string
  | Emit page_event

fun step :: "PlaywrightSniff \<Rightarrow> call \<Rightarrow> PlaywrightSniff" where
  "step s Start = start s"
| "step s (Stop now ppid) = snd (stop now ppid s)"
| "step s (MeasureAction action lbl elapsed shot) = snd (measureAction action lbl elapsed shot s)"
| "step s (AddFailure err ty md) = addFailure err ty md s"
| "step s (AddShowStopper lbl critical shot) = addShowStopper lbl critical shot s"
| "step s (SetTestName name) = setTestName name s"
| "step s (SaveReport f now ppid) = snd (saveReport f now ppid s)"
| "step s (GenerateHTMLReport f) = snd (generateHTMLReport f s)"
| "step s (GetResults now) = snd (getResults_call now s)"
| "step s (Emit ev) = emit ev s"

definition run :: "SniffOptions \<Rightarrow> (string \<times> file_content) list \<Rightarrow> call list \<Rightarrow> PlaywrightSniff" where
  "run opts fs calls = foldl step (new_sniff opts fs) calls"

section \<open>Notions for the statements\<close>

text \<open>The screenshot path a showstopper of \<open>addShowStopper\<close> gets.\<close>

definition screenshot_of :: "SniffOptions \<Rightarrow> shot_result \<Rightarrow> string option" where
  "screenshot_of opts shot =
     (if captureScreenshots opts then
        (case shot of
           Captured filePath \<Rightarrow> if filePath \<noteq> [] then Some filePath else None
         | Capture_failed e \<Rightarrow> None)
      else None)"

text \<open>The slow flag of a timing agrees with its duration, at a threshold.\<close>

definition timing_ok :: "int \<Rightarrow> ActionTiming \<Rightarrow> bool" where
  "timing_ok threshold t = (slow t = (duration t > threshold \<and> failed t = False))"

text \<open>The reports of an existing file that \<open>saveReport\<close> keeps.\<close>

definition kept_reports :: "string option \<Rightarrow> file_content option \<Rightarrow> SniffReport list" where
  "kept_reports currentPpid existing =
     (case existing of
        Some (Json_report pid reports) \<Rightarrow>
          if pid \<noteq> None \<and> pid \<noteq> Some [] \<and> pid \<noteq> currentPpid then [] else reports
      | _ \<Rightarrow> [])"

text \<open>The collections of a session: failures, showstoppers, timings and the two lists of
  request durations.\<close>

definition collections ::
  "PlaywrightSniff \<Rightarrow>
     Failure list \<times> ShowStopper list \<times> ActionTiming list \<times> int list \<times> RequestDetails list" where
  "collections s =
     (failures s, showStoppers s, timings s, requestDurations s, detailedRequestDurations s)"

text \<open>The digits of \<open>n\<close> with a point before the last two: \<open>n / 100\<close> to two places.\<close>

definition two_places :: "nat \<Rightarrow> string" where
  "two_places n = show_nat (n div 100) @ ''.'' @ [digit_char (n div 10), digit_char n]"

section \<open>Properties\<close>

subsection \<open>A running monitor to evaluate on\<close>

lemma start_new_sniff:
  "start (new_sniff opts fs) =
     \<lparr>options = opts, failures = [], showStoppers = [], requestStartTimes = [],
      requestDurations = [], detailedRequestDurations = [], timings = [],
      isMonitoring = True, testName = None, listeners = Suc 0, files = fs,
      logged = [(''Started monitoring Playwright actions for undefined'', INFO)]\<rparr>"
  by (simp add: start_def new_sniff_def logger_def setupSniffingListeners_def show_name_def)

subsection \<open>What each operation leaves alone\<close>

text \<open>
  \<open>getResults\<close> leaves the monitor as it finds it, and its report is made of the
  fields as follows.
\<close>

lemma snd_getResults_call [simp]: "snd (getResults_call now s) = s"
  by (simp add: getResults_call_def array_filter_def array_map_def array_sort_def)

lemma getResults_report:
  "getResults now s =
     \<lparr>reportData =
        [\<lparr>timestamp = now,
          passed = (showStoppers s = []),
          r_showStoppers = showStoppers s,
          r_slowThreshold = slowThreshold (options s),
          pageLoadSteps = timings s,
          avgLoadTime =
            calculateAverage
              (map (\<lambda>t. number_of_int (duration t)) (filter (\<lambda>t. \<not> failed t) (timings s))),
          avgRequestTime = calculateAverage (map number_of_int (requestDurations s)),
          slowRequests =
            js_sort (\<lambda>a b. rd_duration b - rd_duration a)
              (filter (\<lambda>r. rd_duration r > slowThreshold (options s))
                 (detailedRequestDurations s)),
          r_failures = failures s,
          r_testName = testName s\<rparr>]\<rparr>"
  by (simp add: getResults_def getResults_call_def array_filter_def array_map_def
      array_sort_def)

lemma getResults_call_eq: "getResults_call now s = (getResults now s, s)"
  by (simp add: getResults_def prod_eq_iff)

lemma funpow_frame:
  assumes "\<And>s. g (f s) = g s"
  shows "g ((f ^^ n) s) = g s"
  by (induction n) (simp_all add: assms)

lemma logger_fields [simp]:
  "options (logger m l s) = options s"
  "failures (logger m l s) = failures s"
  "showStoppers (logger m l s) = showStoppers s"
  "timings (logger m l s) = timings s"
  "requestStartTimes (logger m l s) = requestStartTimes s"
  "requestDurations (logger m l s) = requestDurations s"
  "detailedRequestDurations (logger m l s) = detailedRequestDurations s"
  "isMonitoring (logger m l s) = isMonitoring s"
  "testName (logger m l s) = testName s"
  "listeners (logger m l s) = listeners s"
  "files (logger m l s) = files s"
  by (simp_all add: logger_def)

lemma captureErrorScreenshot_fields [simp]:
  "options (snd (captureErrorScreenshot shot s)) = options s"
  "failures (snd (captureErrorScreenshot shot s)) = failures s"
  "showStoppers (snd (captureErrorScreenshot shot s)) = showStoppers s"
  "timings (snd (captureErrorScreenshot shot s)) = timings s"
  "requestStartTimes (snd (captureErrorScreenshot shot s)) = requestStartTimes s"
  "requestDurations (snd (captureErrorScreenshot shot s)) = requestDurations s"
  "detailedRequestDurations (snd (captureErrorScreenshot shot s)) = detailedRequestDurations s"
  "isMonitoring (snd (captureErrorScreenshot shot s)) = isMonitoring s"
  "testName (snd (captureErrorScreenshot shot s)) = testName s"
  "listeners (snd (captureErrorScreenshot shot s)) = listeners s"
  "files (snd (captureErrorScreenshot shot s)) = files s"
  by (simp_all add: captureErrorScreenshot_def split: shot_result.split)

lemma addShowStopper_fields [simp]:
  "options (addShowStopper l c shot s) = options s"
  "failures (addShowStopper l c shot s) = failures s"
  "timings (addShowStopper l c shot s) = timings s"
  "requestStartTimes (addShowStopper l c shot s) = requestStartTimes s"
  "requestDurations (addShowStopper l c shot s) = requestDurations s"
  "detailedRequestDurations (addShowStopper l c shot s) = detailedRequestDurations s"
  "isMonitoring (addShowStopper l c shot s) = isMonitoring s"
  "testName (addShowStopper l c shot s) = testName s"
  "listeners (addShowStopper l c shot s) = listeners s"
  "files (addShowStopper l c shot s) = files s"
  by (simp_all add: addShowStopper_def captureErrorScreenshot_def Let_def
      split: shot_result.split prod.split option.split)

lemma showStoppers_addShowStopper:
  "showStoppers (addShowStopper l c shot s) =
     (if isMonitoring s then
        showStoppers s @
          [\<lparr>ss_label = l, criticalError = c, screenshot = screenshot_of (options s) shot\<rparr>]
      else showStoppers s)"
  by (simp add: addShowStopper_def captureErrorScreenshot_def screenshot_of_def Let_def
      split: shot_result.split prod.split option.split)

lemma addFailure_fields [simp]:
  "options (addFailure e t md s) = options s"
  "showStoppers (addFailure e t md s) = showStoppers s"
  "timings (addFailure e t md s) = timings s"
  "requestStartTimes (addFailure e t md s) = requestStartTimes s"
  "requestDurations (addFailure e t md s) = requestDurations s"
  "detailedRequestDurations (addFailure e t md s) = detailedRequestDurations s"
  "isMonitoring (addFailure e t md s) = isMonitoring s"
  "testName (addFailure e t md s) = testName s"
  "listeners (addFailure e t md s) = listeners s"
  "files (addFailure e t md s) = files s"
  by (simp_all add: addFailure_def)

lemma failures_addFailure:
  "failures (addFailure e t md s) =
     (if isMonitoring s then
        failures s @
          [\<lparr>error = Some e, ftype = t, requestUrl = None, requestStatus = None,
            requestMethod = None, metadata = md\<rparr>]
      else failures s)"
  by (simp add: addFailure_def)

lemma measureAction_fields [simp]:
  "options (snd (measureAction a lbl d shot s)) = options s"
  "failures (snd (measureAction a lbl d shot s)) = failures s"
  "requestStartTimes (snd (measureAction a lbl d shot s)) = requestStartTimes s"
  "requestDurations (snd (measureAction a lbl d shot s)) = requestDurations s"
  "detailedRequestDurations (snd (measureAction a lbl d shot s)) = detailedRequestDurations s"
  "isMonitoring (snd (measureAction a lbl d shot s)) = isMonitoring s"
  "testName (snd (measureAction a lbl d shot s)) = testName s"
  "listeners (snd (measureAction a lbl d shot s)) = listeners s"
  "files (snd (measureAction a lbl d shot s)) = files s"
  by (simp_all add: measureAction_def Let_def split: action_outcome.split sum.split)

lemma timings_measureAction:
  "timings (snd (measureAction a lbl d shot s)) =
     (if isMonitoring s then
        (case a of
           Resolved \<Rightarrow>
             timings s @
               [\<lparr>label = lbl, duration = d, slow = (d > slowThreshold (options s)),
                 failed = False\<rparr>]
         | Rejected e \<Rightarrow>
             (case cleanErrorMessage e of
                Inl thrown \<Rightarrow> timings s
              | Inr errorMessage \<Rightarrow>
                  timings s @ [\<lparr>label = lbl, duration = 0, slow = False, failed = True\<rparr>]))
      else timings s)"
  by (simp add: measureAction_def Let_def split: action_outcome.split sum.split)

lemma showStoppers_measureAction:
  "showStoppers (snd (measureAction a lbl d shot s)) =
     (case a of
        Resolved \<Rightarrow> showStoppers s
      | Rejected e \<Rightarrow>
          if isMonitoring s then
            (case cleanErrorMessage e of
               Inl thrown \<Rightarrow> showStoppers s
             | Inr errorMessage \<Rightarrow>
                 showStoppers s @
                   [\<lparr>ss_label = lbl, criticalError = errorMessage, screenshot = None\<rparr>])
          else showStoppers s)"
  by (simp add: measureAction_def Let_def split: action_outcome.split sum.split)

text \<open>
  An action that rejects on a running monitor: when the message of what it threw can
  be read, \<open>measureAction\<close> returns, with one failed timing and one showstopper added;
  when reading the message throws, \<open>measureAction\<close> rejects and the monitor is as it
  was.
\<close>

lemma measureAction_rejected_recorded:
  assumes "isMonitoring s" and "cleanErrorMessage e = Inr errorMessage"
  shows "fst (measureAction (Rejected e) lbl elapsed shot s) = Inr ()"
    and "timings (snd (measureAction (Rejected e) lbl elapsed shot s)) =
           timings s @ [\<lparr>label = lbl, duration = 0, slow = False, failed = True\<rparr>]"
    and "showStoppers (snd (measureAction (Rejected e) lbl elapsed shot s)) =
           showStoppers s @
             [\<lparr>ss_label = lbl, criticalError = errorMessage, screenshot = None\<rparr>]"
    and "failures (snd (measureAction (Rejected e) lbl elapsed shot s)) = failures s"
  using assms
  by (simp_all add: timings_measureAction showStoppers_measureAction)
    (simp add: measureAction_def Let_def)

lemma measureAction_rejected_thrown:
  assumes "isMonitoring s" and "cleanErrorMessage e = Inl thrown"
  shows "measureAction (Rejected e) lbl elapsed shot s = (Inl thrown, s)"
  using assms by (simp add: measureAction_def)

lemma listener_fields [simp]:
  "options (listener ev s) = options s"
  "timings (listener ev s) = timings s"
  "isMonitoring (listener ev s) = isMonitoring s"
  "testName (listener ev s) = testName s"
  "listeners (listener ev s) = listeners s"
  "files (listener ev s) = files s"
  by (cases ev;
      simp add: on_console_def on_requestfailed_def on_request_def on_requestfinished_def
        on_response_def Let_def split: option.split)+

lemma emit_fields [simp]:
  "options (emit ev s) = options s"
  "timings (emit ev s) = timings s"
  "isMonitoring (emit ev s) = isMonitoring s"
  "testName (emit ev s) = testName s"
  "listeners (emit ev s) = listeners s"
  "files (emit ev s) = files s"
  unfolding emit_def by (rule funpow_frame, simp)+

lemma saveReport_fields [simp]:
  "options (snd (saveReport f now ppid s)) = options s"
  "failures (snd (saveReport f now ppid s)) = failures s"
  "showStoppers (snd (saveReport f now ppid s)) = showStoppers s"
  "timings (snd (saveReport f now ppid s)) = timings s"
  "requestStartTimes (snd (saveReport f now ppid s)) = requestStartTimes s"
  "requestDurations (snd (saveReport f now ppid s)) = requestDurations s"
  "detailedRequestDurations (snd (saveReport f now ppid s)) = detailedRequestDurations s"
  "isMonitoring (snd (saveReport f now ppid s)) = isMonitoring s"
  "testName (snd (saveReport f now ppid s)) = testName s"
  "listeners (snd (saveReport f now ppid s)) = listeners s"
  by (simp_all add: saveReport_def getResults_call_eq Let_def
      split: option.split file_content.split)

lemma generateHTMLReport_fields [simp]:
  "options (snd (generateHTMLReport f s)) = options s"
  "failures (snd (generateHTMLReport f s)) = failures s"
  "showStoppers (snd (generateHTMLReport f s)) = showStoppers s"
  "timings (snd (generateHTMLReport f s)) = timings s"
  "requestStartTimes (snd (generateHTMLReport f s)) = requestStartTimes s"
  "requestDurations (snd (generateHTMLReport f s)) = requestDurations s"
  "detailedRequestDurations (snd (generateHTMLReport f s)) = detailedRequestDurations s"
  "isMonitoring (snd (generateHTMLReport f s)) = isMonitoring s"
  "testName (snd (generateHTMLReport f s)) = testName s"
  "listeners (snd (generateHTMLReport f s)) = listeners s"
  by (simp_all add: generateHTMLReport_def Let_def split: option.split file_content.split)

text \<open>
  \<open>stop\<close> changes the files, the log and \<open>isMonitoring\<close> only: its state is that of
  \<open>generateHTMLReport\<close> after \<open>saveReport\<close>, with these fields set.
\<close>

lemma snd_stop:
  "snd (stop now ppid s) =
     (if \<not> isMonitoring s then logger ''Monitoring not started'' WARN s
      else
        case generateHTMLReport None (snd (saveReport None now ppid s)) of
          (Inl e, s2) \<Rightarrow> s2
        | (Inr u, s2) \<Rightarrow>
            logger (''Stopped monitoring Playwright actions for '' @ show_name (testName s2)) INFO
              (s2\<lparr>isMonitoring := False\<rparr>))"
  by (simp add: stop_def Let_def split: prod.split sum.split)

lemma stop_fields [simp]:
  "options (snd (stop now ppid s)) = options s"
  "failures (snd (stop now ppid s)) = failures s"
  "showStoppers (snd (stop now ppid s)) = showStoppers s"
  "timings (snd (stop now ppid s)) = timings s"
  "requestStartTimes (snd (stop now ppid s)) = requestStartTimes s"
  "requestDurations (snd (stop now ppid s)) = requestDurations s"
  "detailedRequestDurations (snd (stop now ppid s)) = detailedRequestDurations s"
  "testName (snd (stop now ppid s)) = testName s"
  "listeners (snd (stop now ppid s)) = listeners s"
proof -
  obtain r s2 where g: "generateHTMLReport None (snd (saveReport None now ppid s)) = (r, s2)"
    by (cases "generateHTMLReport None (snd (saveReport None now ppid s))")
  then have s2: "s2 = snd (generateHTMLReport None (snd (saveReport None now ppid s)))"
    by simp
  have frame: "options s2 = options s" "failures s2 = failures s"
    "showStoppers s2 = showStoppers s" "timings s2 = timings s"
    "requestStartTimes s2 = requestStartTimes s" "requestDurations s2 = requestDurations s"
    "detailedRequestDurations s2 = detailedRequestDurations s" "testName s2 = testName s"
    "listeners s2 = listeners s"
    unfolding s2 by simp_all
  show "options (snd (stop now ppid s)) = options s"
    "failures (snd (stop now ppid s)) = failures s"
    "showStoppers (snd (stop now ppid s)) = showStoppers s"
    "timings (snd (stop now ppid s)) = timings s"
    "requestStartTimes (snd (stop now ppid s)) = requestStartTimes s"
    "requestDurations (snd (stop now ppid s)) = requestDurations s"
    "detailedRequestDurations (snd (stop now ppid s)) = detailedRequestDurations s"
    "testName (snd (stop now ppid s)) = testName s"
    "listeners (snd (stop now ppid s)) = listeners s"
    by (simp_all add: snd_stop g frame split: sum.split)
qed

lemma options_step [simp]: "options (step s c) = options s"
  by (cases c) (simp_all add: start_def setupSniffingListeners_def setTestName_def)

subsection \<open>The verdict of a report\<close>

text \<open>
  C1. In every state of the monitor, whatever its failures, timings and
  \<open>isMonitoring\<close>, and at every clock reading, the report of \<open>getResults\<close> has
  \<open>passed\<close> true exactly when no showstopper is recorded.
\<close>

theorem getResults_passed:
  "map passed (reportData (getResults now s)) = [showStoppers s = []]"
  by (simp add: getResults_report)

subsection \<open>An action that throws\<close>

text \<open>
  C2. On a running monitor, an action that rejects with an error whose message is
  \<open>boom\<close>, a line break and \<open>at step\<close> gets a showstopper whose \<open>criticalError\<close> is
  that message with both its lines: what \<open>cleanErrorMessage\<close> returns is not cut to
  the first line. And an action that rejects with a value whose message cannot be
  read (a value that \<open>String\<close> throws on, an error whose \<open>message\<close> is no string) makes
  \<open>measureAction\<close> itself reject, with the \<open>TypeError\<close> of \<open>cleanErrorMessage\<close>, and
  leaves the monitor as it was: no timing and no showstopper is added.
\<close>

theorem measureAction_rejected_divergence:
  "map criticalError
     (showStoppers
        (snd (measureAction (Rejected (Error_object (''boom'' @ [CHR 0x0A] @ ''at step'')))
                ''Click Link'' 17 (Capture_failed ''page closed'')
                (start (new_sniff DEFAULT_OPTIONS []))))) =
     [''boom'' @ [CHR 0x0A] @ ''at step''] \<and>
   measureAction (Rejected Unprintable_value) ''Click Link'' 17 (Capture_failed ''page closed'')
       (start (new_sniff DEFAULT_OPTIONS [])) =
     (Inl Type_error, start (new_sniff DEFAULT_OPTIONS [])) \<and>
   measureAction (Rejected Error_without_message) ''Click Link'' 17
       (Capture_failed ''page closed'') (start (new_sniff DEFAULT_OPTIONS [])) =
     (Inl Type_error, start (new_sniff DEFAULT_OPTIONS []))"
proof -
  have running: "isMonitoring (start (new_sniff DEFAULT_OPTIONS []))"
    by (simp add: start_new_sniff)
  have msg: "cleanErrorMessage (Error_object (''boom'' @ [CHR 0x0A] @ ''at step'')) =
      Inr (''boom'' @ [CHR 0x0A] @ ''at step'')"
    by (simp add: cleanErrorMessage_def)
  have "showStoppers
        (snd (measureAction (Rejected (Error_object (''boom'' @ [CHR 0x0A] @ ''at step'')))
                ''Click Link'' 17 (Capture_failed ''page closed'')
                (start (new_sniff DEFAULT_OPTIONS [])))) =
      showStoppers (start (new_sniff DEFAULT_OPTIONS [])) @
        [\<lparr>ss_label = ''Click Link'', criticalError = ''boom'' @ [CHR 0x0A] @ ''at step'',
          screenshot = None\<rparr>]"
    by (rule measureAction_rejected_recorded(3) [OF running msg])
  then have two_lines: "map criticalError
     (showStoppers
        (snd (measureAction (Rejected (Error_object (''boom'' @ [CHR 0x0A] @ ''at step'')))
                ''Click Link'' 17 (Capture_failed ''page closed'')
                (start (new_sniff DEFAULT_OPTIONS []))))) =
     [''boom'' @ [CHR 0x0A] @ ''at step'']"
    by (simp add: start_new_sniff)
  have thrown: "measureAction (Rejected e) ''Click Link'' 17 (Capture_failed ''page closed'')
       (start (new_sniff DEFAULT_OPTIONS [])) =
     (Inl Type_error, start (new_sniff DEFAULT_OPTIONS []))"
    if "cleanErrorMessage e = Inl Type_error" for e
    by (rule measureAction_rejected_thrown [OF running that])
  from two_lines thrown [of Unprintable_value] thrown [of Error_without_message]
  show ?thesis by (simp add: cleanErrorMessage_def)
qed

subsection \<open>The slow flag of a timing\<close>

lemma timing_ok_step:
  assumes "list_all (timing_ok (slowThreshold (options s))) (timings s)"
  shows "list_all (timing_ok (slowThreshold (options s))) (timings (step s c))"
  using assms
  by (cases c)
    (auto simp: start_def setupSniffingListeners_def addFailure_def setTestName_def
      timings_measureAction timing_ok_def split: action_outcome.split sum.split)

lemma timing_ok_foldl:
  "list_all (timing_ok (slowThreshold (options s))) (timings s) \<Longrightarrow>
   list_all (timing_ok (slowThreshold (options s))) (timings (foldl step s calls))"
proof (induction calls arbitrary: s)
  case Nil
  then show ?case by simp
next
  case (Cons c calls)
  have "list_all (timing_ok (slowThreshold (options (step s c)))) (timings (step s c))"
    using timing_ok_step [OF Cons.prems] by simp
  from Cons.IH [OF this] show ?case by simp
qed

text \<open>
  C5. While the monitor is running, \<open>measureAction\<close> appends, for an action that resolved
  after \<open>d\<close> milliseconds, the timing with that duration, \<open>failed = false\<close> and
  \<open>slow = (d > slowThreshold)\<close>, and for an action that rejected the timing with duration
  0, \<open>slow = false\<close> and \<open>failed = true\<close>; the one rejection for which it appends no
  timing at all is that of a value whose message cannot be read. So after any sequence
  of calls and page events on a new monitor, every recorded timing has
  \<open>slow = (duration > slowThreshold and not failed)\<close>.
\<close>

theorem timings_slow_flag:
  "(isMonitoring s \<longrightarrow>
      timings (snd (measureAction Resolved lbl d shot s)) =
        timings s @ [\<lparr>label = lbl, duration = d, slow = (d > slowThreshold (options s)),
                      failed = False\<rparr>] \<and>
      timings (snd (measureAction (Rejected e) lbl d shot s)) =
        (case cleanErrorMessage e of
           Inl thrown \<Rightarrow> timings s
         | Inr errorMessage \<Rightarrow>
             timings s @ [\<lparr>label = lbl, duration = 0, slow = False, failed = True\<rparr>])) \<and>
   list_all (\<lambda>t. slow t = (duration t > slowThreshold opts \<and> failed t = False))
     (timings (run opts fs calls))"
proof -
  have "list_all (timing_ok (slowThreshold (options (new_sniff opts fs))))
          (timings (foldl step (new_sniff opts fs) calls))"
    by (rule timing_ok_foldl) (simp add: new_sniff_def)
  then have "list_all (\<lambda>t. slow t = (duration t > slowThreshold opts \<and> failed t = False))
     (timings (run opts fs calls))"
    by (simp add: run_def new_sniff_def timing_ok_def [abs_def])
  then show ?thesis
    by (simp add: timings_measureAction)
qed

theorem timings_slow_flag_witness:
  "isMonitoring (start (new_sniff DEFAULT_OPTIONS [])) \<and>
   timings (snd (measureAction Resolved ''Open Playwright Page'' 3000 (Captured ''a.png'')
                   (start (new_sniff DEFAULT_OPTIONS [])))) =
     [\<lparr>label = ''Open Playwright Page'', duration = 3000, slow = True, failed = False\<rparr>] \<and>
   timings (snd (measureAction (Rejected (Other_value ''boom'')) ''Open Playwright Page'' 3000
                   (Captured ''a.png'') (start (new_sniff DEFAULT_OPTIONS [])))) =
     [\<lparr>label = ''Open Playwright Page'', duration = 0, slow = False, failed = True\<rparr>] \<and>
   list_all (\<lambda>t. slow t = (duration t > 2000 \<and> failed t = False))
     (timings (run DEFAULT_OPTIONS []
        [Start, MeasureAction Resolved ''Click Link'' 2000 (Captured ''a.png'')]))"
proof -
  have running: "isMonitoring (start (new_sniff DEFAULT_OPTIONS []))"
    by (simp add: start_new_sniff)
  have threshold: "slowThreshold DEFAULT_OPTIONS = 2000"
    by (simp add: DEFAULT_OPTIONS_def)
  show ?thesis
    using running
      timings_slow_flag [of "start (new_sniff DEFAULT_OPTIONS [])" "''Open Playwright Page''"
        3000 "Captured ''a.png''" "Other_value ''boom''" DEFAULT_OPTIONS "[]"
        "[Start, MeasureAction Resolved ''Click Link'' 2000 (Captured ''a.png'')]"]
    by (simp add: start_new_sniff threshold cleanErrorMessage_def)
qed

subsection \<open>The slow requests of a report\<close>

lemma set_insert_sorted [simp]: "set (insert_sorted cmp x ys) = insert x (set ys)"
  by (induction ys) auto

lemma length_insert_sorted [simp]: "length (insert_sorted cmp x ys) = Suc (length ys)"
  by (induction ys) auto

text \<open>
  An element is put after the elements of a greater key only, so among the elements
  of its own key it comes first.
\<close>

lemma filter_key_insert_sorted:
  "filter (\<lambda>r. key r = d) (insert_sorted (\<lambda>a b. key b - key a) x ys) =
     (if key x = d then x # filter (\<lambda>r. key r = d) ys else filter (\<lambda>r. key r = d) ys)"
  for key :: "'a \<Rightarrow> int"
  by (induction ys) auto

lemma sorted_insert_sorted:
  "sorted_wrt (\<lambda>a b. key a \<ge> key b) ys \<Longrightarrow>
     sorted_wrt (\<lambda>a b. key a \<ge> key b) (insert_sorted (\<lambda>a b. key b - key a) x ys)"
  for key :: "'a \<Rightarrow> int"
  by (induction ys) auto

lemma set_js_sort [simp]: "set (js_sort cmp xs) = set xs"
  by (induction xs) (simp_all add: js_sort_def)

lemma length_js_sort [simp]: "length (js_sort cmp xs) = length xs"
  by (induction xs) (simp_all add: js_sort_def)

lemma filter_key_js_sort:
  "filter (\<lambda>r. key r = d) (js_sort (\<lambda>a b. key b - key a) xs) = filter (\<lambda>r. key r = d) xs"
  for key :: "'a \<Rightarrow> int"
  by (induction xs) (simp_all add: js_sort_def filter_key_insert_sorted)

lemma sorted_js_sort:
  "sorted_wrt (\<lambda>a b. key a \<ge> key b) (js_sort (\<lambda>a b. key b - key a) xs)"
  for key :: "'a \<Rightarrow> int"
  by (induction xs) (simp_all add: js_sort_def sorted_insert_sorted)

text \<open>The sort, compared with the stable sort of the library on the negated key.\<close>

lemma insert_sorted_insort_key:
  "insert_sorted (\<lambda>a b. key b - key a) x ys = insort_key (\<lambda>r. - key r) x ys"
  for key :: "'a \<Rightarrow> int"
  by (induction ys) auto

lemma js_sort_sort_key:
  "js_sort (\<lambda>a b. key b - key a) xs = sort_key (\<lambda>r. - key r) xs"
  for key :: "'a \<Rightarrow> int"
  by (induction xs) (simp_all add: js_sort_def sort_key_def insert_sorted_insort_key)

text \<open>
  C9. The \<open>slowRequests\<close> of a report are the recorded requests whose duration is
  greater than \<open>slowThreshold\<close>, no other and each as often as recorded, in descending
  order of duration, those of one duration in the order they were recorded: the list
  is the stable sort of the filtered list. Requests recorded with the durations 50,
  900 and 300 give, at the threshold 200, the durations 900 and 300.
\<close>

theorem getResults_slowRequests:
  "(\<exists>sr. map slowRequests (reportData (getResults now s)) = [sr] \<and>
     set sr = {r. r \<in> set (detailedRequestDurations s) \<and>
                  rd_duration r > slowThreshold (options s)} \<and>
     length sr = length (filter (\<lambda>r. rd_duration r > slowThreshold (options s))
                           (detailedRequestDurations s)) \<and>
     sorted_wrt (\<lambda>a b. rd_duration a \<ge> rd_duration b) sr \<and>
     (\<forall>d. filter (\<lambda>r. rd_duration r = d) sr =
           filter (\<lambda>r. rd_duration r = d)
             (filter (\<lambda>r. rd_duration r > slowThreshold (options s))
                (detailedRequestDurations s))) \<and>
     sr = sort_key (\<lambda>r. - rd_duration r)
            (filter (\<lambda>r. rd_duration r > slowThreshold (options s))
               (detailedRequestDurations s))) \<and>
   map (map rd_duration \<circ> slowRequests)
     (reportData (getResults now'
        (run (DEFAULT_OPTIONS\<lparr>slowThreshold := 200\<rparr>) []
          [Start,
           Emit (Request_event ''/a'' 1000),
           Emit (Request_event ''/b'' 1000),
           Emit (Request_event ''/c'' 1010),
           Emit (Requestfinished_event ''/a'' ''GET'' 1050),
           Emit (Requestfinished_event ''/b'' ''GET'' 1900),
           Emit (Requestfinished_event ''/c'' ''POST'' 1310)]))) = [[900, 300]]"
proof -
  have "map (map rd_duration \<circ> slowRequests)
     (reportData (getResults now'
        (run (DEFAULT_OPTIONS\<lparr>slowThreshold := 200\<rparr>) []
          [Start,
           Emit (Request_event ''/a'' 1000),
           Emit (Request_event ''/b'' 1000),
           Emit (Request_event ''/c'' 1010),
           Emit (Requestfinished_event ''/a'' ''GET'' 1050),
           Emit (Requestfinished_event ''/b'' ''GET'' 1900),
           Emit (Requestfinished_event ''/c'' ''POST'' 1310)]))) = [[900, 300]]"
    by (simp add: getResults_report run_def start_new_sniff DEFAULT_OPTIONS_def
        js_sort_def emit_def on_request_def on_requestfinished_def)
  then show ?thesis
    by (simp add: getResults_report filter_key_js_sort sorted_js_sort
        js_sort_sort_key [symmetric])
qed

subsection \<open>Stopping\<close>

lemma saveReport_files:
  "files (snd (saveReport None now ppid s)) =
     AList.update (outputFile (options s))
       (Json_report ppid
          (kept_reports ppid (map_of (files s) (outputFile (options s)))
           @ reportData (getResults now s)))
       (files s)"
  by (simp add: saveReport_def getResults_call_eq kept_reports_def Let_def
      split: option.split file_content.split)

lemma generateHTMLReport_written:
  assumes "map_of (files s) (outputFile (options s)) = Some (Json_report pid reports)"
    and "reports \<noteq> []"
  shows "generateHTMLReport None s =
     (Inr (),
      logger (''HTML Report ''
              @ (if map_of (files s) (outputHTML (options s)) \<noteq> None then ''updated''
                 else ''created'')
              @ '' at '' @ outputHTML (options s)) INFO
        (s\<lparr>files := AList.update (outputHTML (options s)) (Html_report reports) (files s)\<rparr>))"
  using assms by (simp add: generateHTMLReport_def Let_def)

lemma stop_idle:
  "\<not> isMonitoring s \<Longrightarrow>
     stop now ppid s =
       (Inr (), s\<lparr>logged := logged s @ [(''Monitoring not started'', WARN)]\<rparr>)"
  by (simp add: stop_def logger_def)

lemma stop_running:
  assumes mon: "isMonitoring s"
  shows "map_of (files (snd (stop now ppid s))) (outputHTML (options s)) =
        Some (Html_report (kept_reports ppid (map_of (files s) (outputFile (options s)))
                           @ reportData (getResults now s))) \<and>
      (outputFile (options s) \<noteq> outputHTML (options s) \<longrightarrow>
         map_of (files (snd (stop now ppid s))) (outputFile (options s)) =
           Some (Json_report ppid (kept_reports ppid (map_of (files s) (outputFile (options s)))
                                   @ reportData (getResults now s)))) \<and>
      \<not> isMonitoring (snd (stop now ppid s)) \<and>
      fst (stop now ppid s) =
        (if showStoppers s = [] then Inr () else Inl Showstoppers_error)"
proof -
  define s1 where "s1 = snd (saveReport None now ppid s)"
  define earlier where "earlier = kept_reports ppid (map_of (files s) (outputFile (options s)))"
  have f1: "files s1 =
     AList.update (outputFile (options s))
       (Json_report ppid (earlier @ reportData (getResults now s))) (files s)"
    by (simp add: s1_def earlier_def saveReport_files)
  have o1: "options s1 = options s" by (simp add: s1_def)
  have nonempty: "earlier @ reportData (getResults now s) \<noteq> []"
    by (simp add: getResults_report)
  have json: "map_of (files s1) (outputFile (options s1)) =
      Some (Json_report ppid (earlier @ reportData (getResults now s)))"
    by (simp add: f1 o1 update_conv')
  note g = generateHTMLReport_written [OF json nonempty]
  have st: "stop now ppid s =
     (let s3 = (snd (generateHTMLReport None s1))\<lparr>isMonitoring := False\<rparr>;
          s4 = logger (''Stopped monitoring Playwright actions for ''
                       @ show_name (testName s3)) INFO s3
      in if hasShowStoppers s4 then (Inl Showstoppers_error, s4) else (Inr (), s4))"
    using mon by (simp add: stop_def s1_def [symmetric] g Let_def)
  have ss: "showStoppers s1 = showStoppers s" by (simp add: s1_def)
  show ?thesis
    unfolding st
    by (simp add: g Let_def logger_def hasShowStoppers_def o1 f1 ss update_conv'
        earlier_def [symmetric])
qed

lemma isMonitoring_stop [simp]: "isMonitoring (snd (stop now ppid s)) = False"
proof (cases "isMonitoring s")
  case True
  from stop_running [OF True, of now ppid] show ?thesis by simp
next
  case False
  then show ?thesis by (simp add: stop_idle)
qed



subsection \<open>A monitor that is not running\<close>

text \<open>
  The three methods test \<open>isMonitoring\<close> first, and the response listener records
  through \<open>addShowStopper\<close>: when the monitor is not running they change no collection.
\<close>

lemma guarded_when_not_monitoring:
  assumes "\<not> isMonitoring s"
  shows "collections (snd (measureAction a lbl d shot s)) = collections s"
    and "collections (addFailure e t md s) = collections s"
    and "collections (addShowStopper lbl c shot s) = collections s"
    and "collections (on_response status u m body shot s) = collections s"
  using assms
  by (simp_all add: collections_def timings_measureAction showStoppers_measureAction
      failures_addFailure showStoppers_addShowStopper on_response_def Let_def
      split: action_outcome.split)

text \<open>Before the first \<open>start\<close> the page has no listener of the monitor.\<close>

lemma emit_no_listener: "listeners s = 0 \<Longrightarrow> emit ev s = s"
  by (simp add: emit_def)

lemma emit_new_sniff: "emit ev (new_sniff opts fs) = new_sniff opts fs"
  by (simp add: emit_no_listener new_sniff_def)

lemma emit_one_listener: "listeners s = Suc 0 \<Longrightarrow> emit ev s = listener ev s"
  by (simp add: emit_def)

lemma emit_two_listeners:
  "listeners s = Suc (Suc 0) \<Longrightarrow> emit ev s = listener ev (listener ev s)"
  by (simp add: emit_def)

lemma start_fields:
  "\<not> isMonitoring s \<Longrightarrow> isMonitoring (start s)"
  "\<not> isMonitoring s \<Longrightarrow> listeners (start s) = Suc (listeners s)"
  "\<not> isMonitoring s \<Longrightarrow> failures (start s) = []"
  "\<not> isMonitoring s \<Longrightarrow> showStoppers (start s) = []"
  "\<not> isMonitoring s \<Longrightarrow> requestStartTimes (start s) = []"
  "options (start s) = options s"
  by (simp_all add: start_def setupSniffingListeners_def)

text \<open>
  C4 fails after \<open>stop\<close>. \<open>stop\<close> removes no listener, and the listeners for
  \<open>console\<close>, \<open>requestfailed\<close> and \<open>requestfinished\<close> do not test \<open>isMonitoring\<close>: on a
  monitor started and stopped, a console error and a failed request are appended to
  \<open>failures\<close>, and a request that finishes is appended to the request durations.
\<close>

theorem listeners_after_stop:
  "\<not> isMonitoring (run DEFAULT_OPTIONS [] [Start, Stop ''t1'' None]) \<and>
   failures (run DEFAULT_OPTIONS [] [Start, Stop ''t1'' None]) = [] \<and>
   failures (emit (Console_event ''error'' ''Uncaught TypeError'')
               (run DEFAULT_OPTIONS [] [Start, Stop ''t1'' None])) =
     [\<lparr>error = Some ''Uncaught TypeError'', ftype = console, requestUrl = None,
       requestStatus = None, requestMethod = None, metadata = []\<rparr>] \<and>
   failures (emit (Requestfailed_event ''/api'' ''GET'' None (Some ''net::ERR_FAILED''))
               (run DEFAULT_OPTIONS [] [Start, Stop ''t1'' None])) =
     [\<lparr>error = Some ''net::ERR_FAILED'', ftype = request, requestUrl = Some ''/api'',
       requestStatus = None, requestMethod = Some ''GET'', metadata = []\<rparr>] \<and>
   requestDurations
     (run DEFAULT_OPTIONS [] [Start, Emit (Request_event ''/api'' 1000), Stop ''t1'' None,
                              Emit (Requestfinished_event ''/api'' ''GET'' 1250)]) = [250]"
proof -
  have r: "run DEFAULT_OPTIONS [] [Start, Stop ''t1'' None] =
           snd (stop ''t1'' None (start (new_sniff DEFAULT_OPTIONS [])))"
    by (simp add: run_def)
  have a: "requestDurations
     (run DEFAULT_OPTIONS [] [Start, Emit (Request_event ''/api'' 1000), Stop ''t1'' None,
                              Emit (Requestfinished_event ''/api'' ''GET'' 1250)]) = [250]"
    by (simp add: run_def start_new_sniff emit_def on_request_def on_requestfinished_def)
  show ?thesis
    unfolding r
    by (simp add: start_new_sniff emit_one_listener on_console_def on_requestfailed_def a)
qed

subsection \<open>The cleaned error message\<close>

text \<open>
  C6. \<open>cleanErrorMessage\<close> removes the colour sequences and keeps every line of the
  message: for an error whose message is a red \<open>boom\<close>, a line break and \<open>at step\<close>, it
  returns \<open>boom\<close>, the line break and \<open>at step\<close>, and that is the \<open>criticalError\<close> of
  the showstopper \<open>measureAction\<close> records.
\<close>

theorem cleanErrorMessage_keeps_lines:
  "cleanErrorMessage
     (Error_object ([CHR 0x1B] @ ''[31mboom'' @ [CHR 0x1B] @ ''[39m'' @ [CHR 0x0A] @ ''at step'')) =
     Inr (''boom'' @ [CHR 0x0A] @ ''at step'') \<and>
   map criticalError
     (getShowStoppers
        (snd (measureAction
                (Rejected (Error_object
                   ([CHR 0x1B] @ ''[31mboom'' @ [CHR 0x1B] @ ''[39m'' @ [CHR 0x0A] @ ''at step'')))
                ''Click Link'' 5 (Capture_failed ''page closed'')
                (start (new_sniff DEFAULT_OPTIONS []))))) =
     [''boom'' @ [CHR 0x0A] @ ''at step'']"
  by (simp add: cleanErrorMessage_def match_sgr_def is_sgr_param_def measureAction_def
      start_new_sniff Let_def captureErrorScreenshot_def logger_def getShowStoppers_def)

text \<open>
  The replacement is one pass over the message: a colour sequence that the removal of
  another one puts together stays.
\<close>

lemma strip_ansi_one_pass:
  "strip_ansi ([CHR 0x1B] @ ''['' @ [CHR 0x1B] @ ''[0m'' @ ''31mred'') = [CHR 0x1B] @ ''[31mred''"
  by (simp add: match_sgr_def is_sgr_param_def)

subsection \<open>Server errors\<close>

text \<open>
  One call of the response listener, on a running monitor: a status from 500 to 599
  appends the one showstopper of the claim, the body cut to 100 characters and
  \<open>[body unreadable]\<close> in its place when it could not be read; any other status changes
  nothing.
\<close>

lemma on_response_server_error:
  assumes "isMonitoring s" and "500 \<le> status" and "status < 600"
  shows "showStoppers (on_response status u m body shot s) =
     showStoppers s @
       [\<lparr>ss_label = m @ '' - '' @ u,
         criticalError =
           ''Status: '' @ show_int status @ '' - Body: ''
           @ take 100 (case body of Some b \<Rightarrow> b | None \<Rightarrow> ''[body unreadable]'') @ ''...'',
         screenshot = screenshot_of (options s) shot\<rparr>]"
  using assms by (simp add: on_response_def showStoppers_addShowStopper Let_def)

lemma on_response_other_status:
  "status < 500 \<or> 600 \<le> status \<Longrightarrow> on_response status u m body shot s = s"
  by (auto simp: on_response_def)

text \<open>
  The page calls every registered listener, so a response with a status from 500 to
  599 appends one showstopper for each call of \<open>start\<close> that took effect on the monitor.
\<close>

lemma funpow_on_response:
  assumes "isMonitoring s" and "500 \<le> status" and "status < 600"
  shows "showStoppers ((listener (Response_event status u m body shot) ^^ n) s) =
     showStoppers s @
       replicate n
         \<lparr>ss_label = m @ '' - '' @ u,
          criticalError =
            ''Status: '' @ show_int status @ '' - Body: ''
            @ take 100 (case body of Some b \<Rightarrow> b | None \<Rightarrow> ''[body unreadable]'') @ ''...'',
          screenshot = screenshot_of (options s) shot\<rparr>"
proof -
  define f where "f = listener (Response_event status u m body shot)"
  define ss where "ss =
     \<lparr>ss_label = m @ '' - '' @ u,
      criticalError =
        ''Status: '' @ show_int status @ '' - Body: ''
        @ take 100 (case body of Some b \<Rightarrow> b | None \<Rightarrow> ''[body unreadable]'') @ ''...'',
      screenshot = screenshot_of (options s) shot\<rparr>"
  have fm: "isMonitoring (f z) = isMonitoring z" for z
    unfolding f_def by (rule listener_fields)
  have fo: "options (f z) = options z" for z
    unfolding f_def by (rule listener_fields)
  have mon: "isMonitoring ((f ^^ k) s)" for k
    using assms(1) funpow_frame [of isMonitoring f, OF fm] by simp
  have opts: "options ((f ^^ k) s) = options s" for k
    using funpow_frame [of options f, OF fo] by simp
  have one: "showStoppers (f z) = showStoppers z @ [ss]"
    if "isMonitoring z" and "options z = options s" for z
    using on_response_server_error [OF that(1) assms(2,3), of u m body shot] that(2)
    by (simp add: f_def ss_def)
  have "showStoppers ((f ^^ n) s) = showStoppers s @ replicate n ss"
  proof (induction n)
    case 0
    show ?case by simp
  next
    case (Suc n)
    have "showStoppers ((f ^^ Suc n) s) = showStoppers ((f ^^ n) s) @ [ss]"
      using one [OF mon opts, of n] by simp
    with Suc.IH show ?case by (simp add: replicate_append_same)
  qed
  then show ?thesis by (simp add: f_def ss_def)
qed

lemma emit_response_server_error:
  assumes "isMonitoring s" and "500 \<le> status" and "status < 600"
  shows "showStoppers (emit (Response_event status u m body shot) s) =
     showStoppers s @
       replicate (listeners s)
         \<lparr>ss_label = m @ '' - '' @ u,
          criticalError =
            ''Status: '' @ show_int status @ '' - Body: ''
            @ take 100 (case body of Some b \<Rightarrow> b | None \<Rightarrow> ''[body unreadable]'') @ ''...'',
          screenshot = screenshot_of (options s) shot\<rparr>"
  unfolding emit_def by (rule funpow_on_response [OF assms])

lemma show_int_503: "show_int 503 = ''503''"
  by (simp add: show_int_def show_nat.simps digit_char_def)

lemma restarted:
  "isMonitoring (start (snd (stop now ppid (start (new_sniff opts fs)))))"
  "listeners (start (snd (stop now ppid (start (new_sniff opts fs))))) = Suc (Suc 0)"
  "showStoppers (start (snd (stop now ppid (start (new_sniff opts fs))))) = []"
  "options (start (snd (stop now ppid (start (new_sniff opts fs))))) = opts"
  by (simp_all add: start_fields start_new_sniff)

text \<open>
  C7 fails on a monitor that is started again after \<open>stop\<close>: \<open>start\<close> registers its
  listeners a second time and the first ones are still on the page, so one response
  with the status 503 appends the showstopper twice.
\<close>

theorem response_listeners_after_restart:
  "isMonitoring (run (DEFAULT_OPTIONS\<lparr>captureScreenshots := False\<rparr>) []
                   [Start, Stop ''t1'' None, Start]) \<and>
   showStoppers (run (DEFAULT_OPTIONS\<lparr>captureScreenshots := False\<rparr>) []
                   [Start, Stop ''t1'' None, Start]) = [] \<and>
   showStoppers
     (emit (Response_event 503 ''https://shop.test/api'' ''GET'' (Some ''Service Unavailable'')
              (Capture_failed ''off''))
        (run (DEFAULT_OPTIONS\<lparr>captureScreenshots := False\<rparr>) []
           [Start, Stop ''t1'' None, Start])) =
     [\<lparr>ss_label = ''GET - https://shop.test/api'',
       criticalError = ''Status: 503 - Body: Service Unavailable...'', screenshot = None\<rparr>,
      \<lparr>ss_label = ''GET - https://shop.test/api'',
       criticalError = ''Status: 503 - Body: Service Unavailable...'', screenshot = None\<rparr>]"
proof -
  have r: "run (DEFAULT_OPTIONS\<lparr>captureScreenshots := False\<rparr>) []
             [Start, Stop ''t1'' None, Start] =
           start (snd (stop ''t1'' None
              (start (new_sniff (DEFAULT_OPTIONS\<lparr>captureScreenshots := False\<rparr>) []))))"
    by (simp add: run_def)
  show ?thesis
    unfolding r
    by (simp add: restarted emit_two_listeners on_response_def showStoppers_addShowStopper
        screenshot_of_def show_int_503 DEFAULT_OPTIONS_def)
qed

subsection \<open>Reading the results twice\<close>

text \<open>
  C8, as the claim states it, fails: the report carries the clock reading of the call,
  so two calls on one state at different clock readings give different reports.
\<close>

theorem getResults_timestamp_counterexample:
  "getResults ''11/3/2026, 9:00:00 AM'' (new_sniff DEFAULT_OPTIONS []) \<noteq>
   getResults ''11/3/2026, 9:00:01 AM'' (new_sniff DEFAULT_OPTIONS [])"
  by (simp add: getResults_report)

text \<open>
  C8, amended. A call of \<open>getResults\<close> leaves the monitor as it found it: the state
  after the call is the state before, in every field, and so is the state of a session
  that ends with the call. The call has no test of \<open>isMonitoring\<close>: the report is the
  same whether the monitor is running or not, and on a new monitor, before \<open>start\<close>,
  it passes, its lists are empty and its averages are null. The report of a second call
  that follows a first is the report of the first with \<open>timestamp\<close> replaced by the
  clock reading of the second call; the \<open>timestamp\<close> of a report is the clock reading of
  its call.
\<close>

theorem getResults_pure:
  "snd (getResults_call now1 s) = s \<and>
   run opts fs (calls @ [GetResults now1]) = run opts fs calls \<and>
   fst (getResults_call now1 (s\<lparr>isMonitoring := b\<rparr>)) = fst (getResults_call now1 s) \<and>
   getResults_call now1 (new_sniff opts fs) =
     (\<lparr>reportData =
         [\<lparr>timestamp = now1, passed = True, r_showStoppers = [],
           r_slowThreshold = slowThreshold opts, pageLoadSteps = [], avgLoadTime = None,
           avgRequestTime = None, slowRequests = [], r_failures = [], r_testName = None\<rparr>]\<rparr>,
      new_sniff opts fs) \<and>
   fst (getResults_call now2 (snd (getResults_call now1 s))) =
     \<lparr>reportData =
        map (timestamp_update (\<lambda>_. now2)) (reportData (fst (getResults_call now1 s)))\<rparr> \<and>
   map timestamp (reportData (fst (getResults_call now1 s))) = [now1]"
proof -
  have unchanged: "snd (getResults_call now s) = s" for now s
    by (simp add: getResults_call_def array_filter_def array_map_def array_sort_def)
  have report: "fst (getResults_call now s) = getResults now s" for now s
    by (simp add: getResults_def)
  have session: "run opts fs (calls @ [GetResults now1]) = run opts fs calls"
    by (simp add: run_def unchanged)
  have lifecycle:
    "fst (getResults_call now1 (s\<lparr>isMonitoring := b\<rparr>)) = fst (getResults_call now1 s)"
    by (simp add: report getResults_report)
  have "getResults now1 (new_sniff opts fs) =
     \<lparr>reportData =
         [\<lparr>timestamp = now1, passed = True, r_showStoppers = [],
           r_slowThreshold = slowThreshold opts, pageLoadSteps = [], avgLoadTime = None,
           avgRequestTime = None, slowRequests = [], r_failures = [], r_testName = None\<rparr>]\<rparr>"
    by (simp add: getResults_report new_sniff_def calculateAverage_def js_sort_def)
  then have zeroed: "getResults_call now1 (new_sniff opts fs) =
     (\<lparr>reportData =
         [\<lparr>timestamp = now1, passed = True, r_showStoppers = [],
           r_slowThreshold = slowThreshold opts, pageLoadSteps = [], avgLoadTime = None,
           avgRequestTime = None, slowRequests = [], r_failures = [], r_testName = None\<rparr>]\<rparr>,
      new_sniff opts fs)"
    by (simp add: prod_eq_iff report unchanged)
  have twice: "fst (getResults_call now2 (snd (getResults_call now1 s))) =
     \<lparr>reportData =
        map (timestamp_update (\<lambda>_. now2)) (reportData (fst (getResults_call now1 s)))\<rparr>"
    by (simp add: unchanged report getResults_report)
  have stamp: "map timestamp (reportData (fst (getResults_call now1 s))) = [now1]"
    by (simp add: report getResults_report)
  from unchanged [of now1 s] session lifecycle zeroed twice stamp show ?thesis
    by (intro conjI)
qed

subsection \<open>Rounding to a double\<close>

lemma bit_length_eq: "2 ^ k \<le> n \<Longrightarrow> n < 2 ^ Suc k \<Longrightarrow> bit_length n = Suc k"
proof (induction k arbitrary: n)
  case 0
  then have "n = 1" by simp
  then show ?case by (simp add: bit_length.simps)
next
  case (Suc k)
  have "2 ^ k \<le> n div 2" using Suc.prems(1) by simp
  moreover have "n div 2 < 2 ^ Suc k" using Suc.prems(2) by simp
  ultimately have "bit_length (n div 2) = Suc k" by (rule Suc.IH)
  moreover have "(0::nat) < 2 ^ Suc k" by simp
  with Suc.prems(1) have "n \<noteq> 0" by linarith
  ultimately show ?case by (subst bit_length.simps) simp
qed

lemma round_even_near:
  assumes "of_int m - 1 / 2 < y" and "y < of_int m + 1 / 2"
  shows "round_even y = m"
proof -
  consider "of_int m \<le> y" | "y < of_int m" by linarith
  then show ?thesis
  proof cases
    case 1
    with assms(2) have f: "\<lfloor>y\<rfloor> = m" by (intro floor_unique) linarith+
    show ?thesis unfolding round_even_def Let_def f using assms by simp
  next
    case 2
    with assms(1) have f: "\<lfloor>y\<rfloor> = m - 1" by (intro floor_unique) (simp, linarith)+
    show ?thesis unfolding round_even_def Let_def f using assms 2 by simp
  qed
qed

lemma round_even_tie:
  assumes "y = of_int m + 1 / 2"
  shows "round_even y = (if even m then m else m + 1)"
proof -
  have f: "\<lfloor>y\<rfloor> = m" unfolding assms by (intro floor_unique) simp_all
  show ?thesis unfolding round_even_def Let_def f by (simp add: assms)
qed

lemma round_magnitude_normal:
  fixes x :: rat
  assumes lo: "2 ^ p \<le> x" and hi: "x < 2 ^ Suc p"
  shows "round_magnitude x =
     (let r = of_int (round_even (x * 2 ^ 52 / 2 ^ p)) * 2 ^ p / 2 ^ 52
      in if 2 ^ 1024 \<le> r then None else Some r)"
proof -
  define k where "k = p + 1074"
  define y where "y = x * 2 ^ 1074"
  have ylo: "2 ^ k \<le> y" unfolding y_def k_def power_add using lo by simp
  have yhi: "y < 2 ^ Suc k"
  proof -
    have "x * 2 ^ 1074 < 2 ^ Suc p * 2 ^ 1074" using hi by simp
    then show ?thesis unfolding y_def k_def by (simp add: power_add)
  qed
  have flo: "(2::int) ^ k \<le> \<lfloor>y\<rfloor>"
  proof -
    have "of_int ((2::int) ^ k) \<le> y" using ylo by simp
    then show ?thesis by (simp only: le_floor_iff)
  qed
  have fhi: "\<lfloor>y\<rfloor> < (2::int) ^ Suc k"
  proof -
    have "y < of_int ((2::int) ^ Suc k)" using yhi by simp
    then show ?thesis by (simp only: floor_less_iff)
  qed
  have n2: "nat ((2::int) ^ j) = 2 ^ j" for j by (simp add: nat_power_eq)
  have "nat ((2::int) ^ k) \<le> nat \<lfloor>y\<rfloor>" using flo by (rule nat_mono)
  then have nlo: "2 ^ k \<le> nat \<lfloor>y\<rfloor>" by (simp only: n2)
  have "nat \<lfloor>y\<rfloor> < nat ((2::int) ^ Suc k)" using fhi by (simp add: nat_less_iff)
  then have nhi: "nat \<lfloor>y\<rfloor> < 2 ^ Suc k" by (simp only: n2)
  have bl: "bit_length (nat \<lfloor>y\<rfloor>) = Suc k" by (rule bit_length_eq [OF nlo nhi])
  have e: "bit_length (nat \<lfloor>y\<rfloor>) - 53 = p + 1022" by (simp add: bl k_def)
  have q: "y / 2 ^ (p + 1022) = x * 2 ^ 52 / 2 ^ p"
  proof -
    have "(2::rat) ^ 1074 = 2 ^ 52 * 2 ^ 1022" by (simp only: power_add [symmetric]) simp
    then show ?thesis unfolding y_def by (simp add: power_add)
  qed
  have r: "of_int m * (2::rat) ^ (p + 1022) / 2 ^ 1074 = of_int m * 2 ^ p / 2 ^ 52" for m
  proof -
    have "(2::rat) ^ 1074 = 2 ^ 52 * 2 ^ 1022" by (simp only: power_add [symmetric]) simp
    then show ?thesis by (simp add: power_add)
  qed
  show ?thesis
    unfolding round_magnitude_def y_def [symmetric] Let_def e q r ..
qed

lemma to_number_normal:
  fixes x :: rat
  assumes "2 ^ p \<le> x" and "x < 2 ^ Suc p"
    and "round_even (x * 2 ^ 52 / 2 ^ p) = m"
    and "of_int m * 2 ^ p / 2 ^ 52 < (2::rat) ^ 1024"
  shows "to_number x = Finite (of_int m * 2 ^ p / 2 ^ 52)"
proof -
  have "(0::rat) < 2 ^ p" by simp
  with assms(1) have "\<not> x < 0" by linarith
  then show ?thesis
    using assms(3,4) by (simp add: to_number_def round_magnitude_normal [OF assms(1,2)] Let_def)
qed


lemma round_even_int [simp]: "round_even (of_int m) = m"
  by (rule round_even_near) simp_all

lemma round_even_0 [simp]: "round_even 0 = 0"
  by (simp add: round_even_def)

lemma bit_length_0 [simp]: "bit_length 0 = 0"
  by (subst bit_length.simps) simp

lemma to_number_0: "to_number 0 = Finite 0"
  by (simp add: to_number_def round_magnitude_def Let_def)

lemma ex_binade: "0 < n \<Longrightarrow> \<exists>p. 2 ^ p \<le> n \<and> n < 2 ^ Suc p" for n :: nat
proof (induction n rule: less_induct)
  case (less n)
  show ?case
  proof (cases "n = 1")
    case True
    then show ?thesis by (intro exI [of _ 0]) simp
  next
    case False
    with less.prems have h: "0 < n div 2" "n div 2 < n" by auto
    from less.IH [OF h(2) h(1)] obtain p where p: "2 ^ p \<le> n div 2" "n div 2 < 2 ^ Suc p"
      by blast
    have "2 ^ Suc p \<le> n" using p(1) by simp
    moreover have "n < 2 ^ Suc (Suc p)" using p(2) by simp
    ultimately show ?thesis by blast
  qed
qed

text \<open>A natural number up to 2^53 is a double.\<close>

lemma scaled_nat_integer:
  assumes "2 ^ p \<le> n" and "n \<le> 2 ^ Suc t"
  shows "\<exists>m. (of_nat n :: rat) * 2 ^ t / 2 ^ p = of_int m"
proof (cases "p \<le> t")
  case True
  then obtain d where d: "t = p + d" using le_Suc_ex by blast
  have "(of_nat n :: rat) * 2 ^ t / 2 ^ p = of_int (int n * 2 ^ d)"
    unfolding d power_add by simp
  then show ?thesis ..
next
  case False
  have "(2::nat) ^ p \<le> 2 ^ Suc t" using assms by (rule order_trans)
  then have "p \<le> Suc t" by (rule power_le_imp_le_exp [rotated]) simp
  with False have pt: "p = Suc t" by simp
  with assms have "n = 2 ^ Suc t" by simp
  then have "(of_nat n :: rat) * 2 ^ t / 2 ^ p = of_int (2 ^ t)"
    unfolding pt by simp
  then show ?thesis ..
qed

lemma to_number_nat:
  assumes "n \<le> 2 ^ 53"
  shows "to_number (of_nat n) = Finite (of_nat n)"
proof (cases "n = 0")
  case True
  then show ?thesis by (simp add: to_number_0)
next
  case False
  then obtain p where p: "2 ^ p \<le> n" "n < 2 ^ Suc p" using ex_binade [of n] by auto
  have "(of_nat (2 ^ p) :: rat) \<le> of_nat n" using p(1) by (simp only: of_nat_le_iff)
  then have lo: "(2::rat) ^ p \<le> of_nat n" by simp
  have "(of_nat n :: rat) < of_nat (2 ^ Suc p)" using p(2) by (simp only: of_nat_less_iff)
  then have hi: "(of_nat n :: rat) < 2 ^ Suc p" by simp
  have n53: "n \<le> 2 ^ Suc 52" using assms by simp
  obtain m where val: "(of_nat n :: rat) * 2 ^ 52 / 2 ^ p = of_int m"
    using scaled_nat_integer [OF p(1) n53] by blast
  have undo: "of_int m * (2::rat) ^ p / 2 ^ 52 = of_nat n"
    unfolding val [symmetric] by simp
  have re: "round_even ((of_nat n :: rat) * 2 ^ 52 / 2 ^ p) = m" by (simp only: val round_even_int)
  have "(of_nat n :: rat) \<le> of_nat (2 ^ 53)" using assms by (simp only: of_nat_le_iff)
  then have "(of_nat n :: rat) < 2 ^ 1024" by simp
  then have small: "of_int m * (2::rat) ^ p / 2 ^ 52 < 2 ^ 1024" by (simp only: undo)
  from to_number_normal [OF lo hi re small] show ?thesis by (simp only: undo)
qed

lemma round_magnitude_fraction:
  fixes x :: rat
  assumes lo: "1 \<le> x * 2 ^ q" and hi: "x * 2 ^ q < 2" and qd: "q + d = 1022"
  shows "round_magnitude x =
     (let r = of_int (round_even (x * 2 ^ q * 2 ^ 52)) / 2 ^ 52 / 2 ^ q
      in if 2 ^ 1024 \<le> r then None else Some r)"
proof -
  define k where "k = 52 + d"
  define y where "y = x * 2 ^ 1074"
  have split: "(2::rat) ^ 1074 = 2 ^ q * 2 ^ k"
  proof -
    have "1074 = q + k" using qd by (simp add: k_def)
    then show ?thesis by (simp only: power_add)
  qed
  have yk: "y = x * 2 ^ q * 2 ^ k" unfolding y_def split by simp
  have ylo: "2 ^ k \<le> y"
  proof -
    have "1 * (2::rat) ^ k \<le> x * 2 ^ q * 2 ^ k" using lo by (intro mult_right_mono) simp_all
    then show ?thesis unfolding yk by simp
  qed
  have yhi: "y < 2 ^ Suc k"
  proof -
    have "x * 2 ^ q * 2 ^ k < 2 * (2::rat) ^ k" using hi by (intro mult_strict_right_mono) simp_all
    then show ?thesis unfolding yk by simp
  qed
  have flo: "(2::int) ^ k \<le> \<lfloor>y\<rfloor>"
  proof -
    have "of_int ((2::int) ^ k) \<le> y" using ylo by simp
    then show ?thesis by (simp only: le_floor_iff)
  qed
  have fhi: "\<lfloor>y\<rfloor> < (2::int) ^ Suc k"
  proof -
    have "y < of_int ((2::int) ^ Suc k)" using yhi by simp
    then show ?thesis by (simp only: floor_less_iff)
  qed
  have n2: "nat ((2::int) ^ j) = 2 ^ j" for j by (simp add: nat_power_eq)
  have "nat ((2::int) ^ k) \<le> nat \<lfloor>y\<rfloor>" using flo by (rule nat_mono)
  then have nlo: "2 ^ k \<le> nat \<lfloor>y\<rfloor>" by (simp only: n2)
  have "nat \<lfloor>y\<rfloor> < nat ((2::int) ^ Suc k)" using fhi by (simp add: nat_less_iff)
  then have nhi: "nat \<lfloor>y\<rfloor> < 2 ^ Suc k" by (simp only: n2)
  have bl: "bit_length (nat \<lfloor>y\<rfloor>) = Suc k" by (rule bit_length_eq [OF nlo nhi])
  have e: "bit_length (nat \<lfloor>y\<rfloor>) - 53 = d" by (simp add: bl k_def)
  have kd: "(2::rat) ^ k = 2 ^ 52 * 2 ^ d" unfolding k_def by (simp only: power_add)
  have q: "y / 2 ^ d = x * 2 ^ q * 2 ^ 52" unfolding yk kd by simp
  have r: "of_int m * (2::rat) ^ d / 2 ^ 1074 = of_int m / 2 ^ 52 / 2 ^ q" for m
    unfolding split kd by simp
  show ?thesis
    unfolding round_magnitude_def y_def [symmetric] Let_def e q r ..
qed

lemma to_number_fraction:
  fixes x :: rat
  assumes "1 \<le> x * 2 ^ q" and "x * 2 ^ q < 2" and "q + d = 1022"
    and "round_even (x * 2 ^ q * 2 ^ 52) = m"
    and "of_int m / 2 ^ 52 / 2 ^ q < (2::rat) ^ 1024"
  shows "to_number x = Finite (of_int m / 2 ^ 52 / 2 ^ q)"
proof -
  have "0 < x * 2 ^ q" using assms(1) by linarith
  then have "0 < x" by (simp add: zero_less_mult_iff)
  then have "\<not> x < 0" by linarith
  then show ?thesis
    using assms(4,5)
    by (simp add: to_number_def round_magnitude_fraction [OF assms(1,2,3)] Let_def)
qed

lemma to_number_scaled:
  assumes "n \<le> 2 ^ 53" and "k \<le> 970"
  shows "to_number (of_nat n * 2 ^ k) = Finite (of_nat n * 2 ^ k)"
proof (cases "n = 0")
  case True
  then show ?thesis by (simp add: to_number_0)
next
  case False
  then obtain p where p: "2 ^ p \<le> n" "n < 2 ^ Suc p" using ex_binade [of n] by auto
  define x :: rat where "x = of_nat n * 2 ^ k"
  have "(of_nat (2 ^ p) :: rat) \<le> of_nat n" using p(1) by (simp only: of_nat_le_iff)
  then have lo0: "(2::rat) ^ p \<le> of_nat n" by simp
  have "(2::rat) ^ p * 2 ^ k \<le> of_nat n * 2 ^ k" using lo0 by (intro mult_right_mono) simp_all
  then have lo: "(2::rat) ^ (p + k) \<le> x" unfolding x_def by (simp only: power_add)
  have "(of_nat n :: rat) < of_nat (2 ^ Suc p)" using p(2) by (simp only: of_nat_less_iff)
  then have hi0: "(of_nat n :: rat) < 2 ^ Suc p" by simp
  have "of_nat n * 2 ^ k < (2::rat) ^ Suc p * 2 ^ k"
    using hi0 by (intro mult_strict_right_mono) simp_all
  then have hi: "x < 2 ^ Suc (p + k)" unfolding x_def by (simp add: power_add)
  have n53: "n \<le> 2 ^ Suc 52" using assms by simp
  obtain m where val0: "(of_nat n :: rat) * 2 ^ 52 / 2 ^ p = of_int m"
    using scaled_nat_integer [OF p(1) n53] by blast
  have val: "x * 2 ^ 52 / 2 ^ (p + k) = of_int m"
    unfolding val0 [symmetric] x_def power_add by simp
  have undo: "of_int m * (2::rat) ^ (p + k) / 2 ^ 52 = x"
    unfolding val0 [symmetric] x_def power_add by simp
  have re: "round_even (x * 2 ^ 52 / 2 ^ (p + k)) = m" by (simp only: val round_even_int)
  have "(of_nat n :: rat) \<le> of_nat (2 ^ 53)" using assms(1) by (simp only: of_nat_le_iff)
  then have n_le: "(of_nat n :: rat) \<le> 2 ^ 53" by simp
  have "(2::rat) ^ k \<le> 2 ^ 970" using assms(2) by (intro power_increasing) simp_all
  with n_le have "of_nat n * (2::rat) ^ k \<le> 2 ^ 53 * 2 ^ 970"
    by (intro mult_mono) simp_all
  also have "\<dots> < (2::rat) ^ 1024" by (simp only: power_add [symmetric]) simp
  finally have small: "of_int m * (2::rat) ^ (p + k) / 2 ^ 52 < 2 ^ 1024"
    unfolding undo x_def .
  from to_number_normal [OF lo hi re small] show ?thesis unfolding undo unfolding x_def .
qed

lemma foldl_js_add_zeros:
  assumes "n \<le> 2 ^ 53"
  shows "foldl js_add (Finite (of_nat n)) (replicate k (Finite 0)) = Finite (of_nat n)"
  using to_number_nat [OF assms] by (induction k) simp_all



text \<open>The sum of natural numbers is exact as long as it is at most \<open>2^53\<close>.\<close>

lemma number_of_int_nat: "n \<le> 2 ^ 53 \<Longrightarrow> number_of_int (int n) = Finite (of_nat n)"
  using to_number_nat [of n] by (simp add: number_of_int_def)

lemma foldl_js_add_nats:
  "a + sum_list ns \<le> 2 ^ 53 \<Longrightarrow>
   foldl js_add (Finite (of_nat a)) (map (\<lambda>n. number_of_int (int n)) ns) =
     Finite (of_nat (a + sum_list ns))"
proof (induction ns arbitrary: a)
  case Nil
  then show ?case by simp
next
  case (Cons n ns)
  have n: "n \<le> 2 ^ 53" and an: "a + n \<le> 2 ^ 53" and rest: "(a + n) + sum_list ns \<le> 2 ^ 53"
    using Cons.prems by simp_all
  have "js_add (Finite (of_nat a)) (number_of_int (int n)) = Finite (of_nat (a + n))"
    using to_number_nat [OF an] by (simp add: number_of_int_nat [OF n])
  then show ?case
    using Cons.IH [OF rest] by (simp add: add.assoc)
qed

text \<open>The digits that \<open>shortest\<close> finds read back as the double they are printed for.\<close>

lemma reads_back_shortest: "reads_back n n \<Longrightarrow> reads_back (shortest n j) n"
  by (induction j) (simp_all add: Let_def)

subsection \<open>The average\<close>


lemma digit_char_mod [simp]: "digit_char (d mod 10) = digit_char d"
  by (simp add: digit_char_def)

lemma show_nat_small: "n < 10 \<Longrightarrow> show_nat n = [digit_char n]"
  by (simp add: show_nat.simps)

lemma show_nat_step: "10 \<le> n \<Longrightarrow> show_nat n = show_nat (n div 10) @ [digit_char n]"
  by (subst show_nat.simps) simp

lemma show_nat_hundreds:
  "100 \<le> n \<Longrightarrow> show_nat n = show_nat (n div 100) @ [digit_char (n div 10), digit_char n]"
proof -
  assume h: "100 \<le> n"
  then have a: "10 \<le> n" and b: "10 \<le> n div 10" by auto
  have "n div 10 div 10 = n div 100" by (simp add: div_mult2_eq)
  then show ?thesis
    using show_nat_step [OF a] show_nat_step [OF b] by simp
qed

lemma length_show_nat_pos: "0 < length (show_nat n)"
  by (subst show_nat.simps) simp

lemma pad_two_places:
  "(let m = show_nat n; k = length m;
        m' = (if k \<le> 2 then replicate (2 + 1 - k) CHR ''0'' @ m else m);
        k' = (if k \<le> 2 then 2 + 1 else k)
    in take (k' - 2) m' @ ''.'' @ drop (k' - 2) m') = two_places n"
proof -
  consider "n < 10" | "10 \<le> n" "n < 100" | "100 \<le> n" by linarith
  then show ?thesis
  proof cases
    case 1
    then show ?thesis
      by (simp add: show_nat_small two_places_def Let_def numeral_3_eq_3 numeral_2_eq_2 digit_char_def)
  next
    case 2
    then have "n div 10 < 10" by simp
    with 2 show ?thesis
      by (simp add: show_nat_step show_nat_small two_places_def Let_def digit_char_def)
  next
    case 3
    have "0 < length (show_nat (n div 100))" by (rule length_show_nat_pos)
    with 3 show ?thesis
      by (simp add: show_nat_hundreds two_places_def Let_def)
  qed
qed

lemma toFixed_two:
  assumes "\<bar>x\<bar> < 10 ^ 21"
  shows "toFixed (Finite x) 2 =
     (if x < 0 then ''-'' else []) @ two_places (nat \<lfloor>\<bar>x\<bar> * 100 + 1 / 2\<rfloor>)"
proof -
  define n where "n = nat \<lfloor>\<bar>x\<bar> * 100 + 1 / 2\<rfloor>"
  have ax: "(if x < 0 then - x else x) = \<bar>x\<bar>" by simp
  have small: "\<not> 10 ^ 21 \<le> \<bar>x\<bar>" using assms by simp
  have tf: "toFixed (Finite x) 2 =
     (if x < 0 then ''-'' else []) @
     (let m = show_nat n; k = length m;
          m' = (if k \<le> 2 then replicate (2 + 1 - k) CHR ''0'' @ m else m);
          k' = (if k \<le> 2 then 2 + 1 else k)
      in take (k' - 2) m' @ ''.'' @ drop (k' - 2) m')"
    using small by (simp add: toFixed_def Let_def ax n_def)
  show ?thesis
    unfolding tf pad_two_places by (simp add: n_def)
qed

lemma round_two_places:
  fixes x :: rat
  assumes "0 \<le> x"
  shows "\<bar>of_nat (nat \<lfloor>x * 100 + 1 / 2\<rfloor>) / 100 - x\<bar> \<le> 1 / 200"
proof -
  define k where "k = \<lfloor>x * 100 + 1 / 2\<rfloor>"
  have lo: "of_int k \<le> x * 100 + 1 / 2" unfolding k_def by (rule of_int_floor_le)
  have hi: "x * 100 + 1 / 2 < of_int k + 1" unfolding k_def by linarith
  have "0 \<le> x * 100 + 1 / 2" using assms by simp
  then have "0 \<le> k" unfolding k_def by simp
  then have nk: "(of_nat (nat k) :: rat) = of_int k" by simp
  have "\<bar>of_int k - x * 100\<bar> \<le> 1 / 2" using lo hi by linarith
  moreover have "of_int k / 100 - x = (of_int k - x * 100) / 100" by simp
  ultimately have "\<bar>of_int k / 100 - x\<bar> \<le> 1 / 200"
    by (simp only: abs_divide)
  then show ?thesis
    unfolding k_def [symmetric] nk .
qed

lemma show_nat_digits: "set (show_nat n) \<subseteq> set ''0123456789''"
proof (induction n rule: show_nat.induct)
  case (1 n)
  have d: "digit_char k \<in> set ''0123456789''" for k
    unfolding digit_char_def by (rule nth_mem) simp
  show ?case
  proof (cases "n < 10")
    case True
    then show ?thesis using d [of n] by (simp add: show_nat_small)
  next
    case False
    with 1 d [of n] show ?thesis by (simp add: show_nat_step)
  qed
qed

lemma to_number_1: "to_number 1 = Finite 1"
  using to_number_nat [of 1] by simp

lemma to_number_3: "to_number 3 = Finite 3"
  using to_number_nat [of 3] by simp

lemma to_number_5: "to_number 5 = Finite 5"
  using to_number_nat [of 5] by simp

lemma to_number_5_3: "to_number (5 / 3) = Finite (7505999378950827 / 4503599627370496)"
proof -
  have re: "round_even ((5 / 3 :: rat) * 2 ^ 52 / 2 ^ 0) = 7505999378950827"
    by (rule round_even_near) simp_all
  have "to_number (5 / 3) = Finite (of_int 7505999378950827 * 2 ^ 0 / 2 ^ 52)"
    by (rule to_number_normal [OF _ _ re]) simp_all
  then show ?thesis by simp
qed

lemma mean_1_2_2:
  "js_divide_by (foldl js_add (Finite 0) [Finite 1, Finite 2, Finite 2]) (length [Finite 1, Finite 2, Finite 2])
     = Finite (7505999378950827 / 4503599627370496)"
  by (simp add: to_number_1 to_number_3 to_number_5 to_number_5_3)

lemma floor_167: "\<lfloor>\<bar>7505999378950827 / 4503599627370496 :: rat\<bar> * 100 + 1 / 2\<rfloor> = 167"
  by (rule floor_unique) simp_all

lemma show_nat_1: "show_nat (Suc 0) = ''1''"
  by (simp add: show_nat_small digit_char_def)


lemma show_nat_power10: "show_nat (10 ^ k) = CHR ''1'' # replicate k CHR ''0''"
proof (induction k)
  case 0
  show ?case by (simp add: show_nat_small digit_char_def)
next
  case (Suc k)
  have "(10::nat) \<le> 10 ^ Suc k" by simp
  from show_nat_step [OF this] Suc show ?case
    by (simp add: digit_char_def replicate_append_same)
qed

lemma dropWhile_replicate_other:
  "x \<noteq> y \<Longrightarrow> dropWhile (\<lambda>c. c = x) (replicate n x @ [y]) = [y]"
  by (induction n) simp_all


lemma toFixed_5_3: "toFixed (Finite (7505999378950827 / 4503599627370496)) 2 = ''1.67''"
proof -
  have b: "toFixed (Finite (7505999378950827 / 4503599627370496)) 2 =
      (if (7505999378950827 / 4503599627370496 :: rat) < 0 then ''-'' else [])
      @ two_places (nat \<lfloor>\<bar>7505999378950827 / 4503599627370496 :: rat\<bar> * 100 + 1 / 2\<rfloor>)"
    by (rule toFixed_two) simp
  show ?thesis
    unfolding b floor_167 by (simp add: two_places_def show_nat_1 digit_char_def)
qed


lemma to_number_1e21: "to_number 1000000000000000000000 = Finite 1000000000000000000000"
  using to_number_scaled [of "5 ^ 21" 21] by simp

lemma to_number_2e21: "to_number 2000000000000000000000 = Finite 2000000000000000000000"
  using to_number_scaled [of "5 ^ 21" 22] by simp

lemma reads_back_1e21: "reads_back 1000000000000000000000 1000000000000000000000"
  by (simp add: reads_back_def to_number_1e21)

lemma reads_back_2e21: "\<not> reads_back 2000000000000000000000 1000000000000000000000"
  by (simp add: reads_back_def to_number_2e21)

lemma shortest_1e21: "shortest (10 ^ 21) (Suc 20) = 10 ^ 21"
  by (subst shortest.simps) (simp add: Let_def reads_back_1e21 reads_back_2e21)

lemma toString_large_1e21: "toString_large (10 ^ 21) = ''1e+21''"
proof -
  have fl: "nat \<lfloor>(10::rat) ^ 21\<rfloor> = 10 ^ 21"
    by (simp add: nat_power_eq)
  have len: "length (CHR ''1'' # replicate 21 CHR ''0'') - 1 = Suc 20"
    by simp
  have e: "show_nat 21 = ''21''"
    by (simp add: show_nat.simps digit_char_def)
  show ?thesis
    unfolding toString_large_def Let_def fl show_nat_power10 len shortest_1e21
      exponent_notation_def show_nat_power10
    by (simp add: e dropWhile_replicate_other)
qed

lemma calculateAverage_1e21: "calculateAverage [Finite (10 ^ 21)] = Some ''1e+21''"
proof -
  have a: "calculateAverage [Finite (10 ^ 21)] = Some (toFixed (Finite (10 ^ 21)) 2)"
    by (simp add: calculateAverage_def to_number_1e21)
  have b: "toFixed (Finite (10 ^ 21)) 2 = toString_large (10 ^ 21)"
    by (simp add: toFixed_def)
  show ?thesis unfolding a b toString_large_1e21 ..
qed

lemma to_number_2_53: "to_number 9007199254740992 = Finite 9007199254740992"
  using to_number_nat [of "2 ^ 53"] by simp

lemma to_number_2_52: "to_number 4503599627370496 = Finite 4503599627370496"
  using to_number_nat [of "2 ^ 52"] by simp

lemma to_number_2_53_plus_1: "to_number 9007199254740993 = Finite 9007199254740992"
proof -
  have re: "round_even ((9007199254740993 :: rat) * 2 ^ 52 / 2 ^ 53) = 4503599627370496"
    using round_even_tie [of "(9007199254740993 :: rat) * 2 ^ 52 / 2 ^ 53" 4503599627370496]
    by simp
  have "to_number 9007199254740993 = Finite (of_int 4503599627370496 * 2 ^ 53 / 2 ^ 52)"
    by (rule to_number_normal [OF _ _ re]) simp_all
  then show ?thesis by simp
qed

lemma show_nat_2_52: "show_nat 4503599627370496 = ''4503599627370496''"
  by (simp add: show_nat.simps digit_char_def)

lemma floor_2_52: "\<lfloor>\<bar>4503599627370496 :: rat\<bar> * 100 + 1 / 2\<rfloor> = 450359962737049600"
  by (rule floor_unique) simp_all

lemma calculateAverage_2_53: 
  "calculateAverage [Finite (2 ^ 53), Finite 1] = Some ''4503599627370496.00''"
proof -
  have a: "calculateAverage [Finite (2 ^ 53), Finite 1] = Some (toFixed (Finite 4503599627370496) 2)"
    by (simp add: calculateAverage_def to_number_2_53 to_number_2_53_plus_1 to_number_2_52)
  have b: "toFixed (Finite 4503599627370496) 2 =
      (if (4503599627370496 :: rat) < 0 then ''-'' else [])
      @ two_places (nat \<lfloor>\<bar>4503599627370496 :: rat\<bar> * 100 + 1 / 2\<rfloor>)"
    by (rule toFixed_two) simp
  show ?thesis
    unfolding a b floor_2_52 by (simp add: two_places_def show_nat_2_52 digit_char_def)
qed


text \<open>
  C10, as the claim states it, fails in two ways. On a list whose mean is \<open>10^21\<close> or
  more, \<open>toFixed\<close> prints the exponent notation of \<open>toString\<close>, which has no decimal
  places. And the mean is computed in doubles: the sum of \<open>2^53\<close> and 1 is rounded to
  \<open>2^53\<close>, so the result for these two values is \<open>4503599627370496.00\<close>, half a unit
  from their mean.
\<close>

theorem calculateAverage_counterexample:
  "calculateAverage [Finite (10 ^ 21)] = Some ''1e+21'' \<and> CHR ''.'' \<notin> set ''1e+21'' \<and>
   calculateAverage [Finite (2 ^ 53), Finite 1] = Some ''4503599627370496.00'' \<and>
   (2 ^ 53 + 1) / 2 - 4503599627370496 = (1 / 2 :: rat)"
  using calculateAverage_1e21 calculateAverage_2_53 by simp

text \<open>
  C10, amended. \<open>calculateAverage\<close> of the empty list is null. Of a list that is not
  empty it prints the mean as double arithmetic computes it: the sum from the left,
  every addition rounded, divided by the length. When that double \<open>x\<close> is finite and
  below \<open>10^21\<close> in magnitude, the result is a string: a minus sign when \<open>x\<close> is
  negative, then the decimal digits of an integer part, a point and exactly two digits;
  the digits are those of the integer \<open>n\<close> nearest to \<open>100 |x|\<close>, the larger of two, so
  they denote a value within half a hundredth of \<open>|x|\<close>. For natural numbers that add up
  to at most \<open>2^53\<close>, as millisecond durations do, the sum is exact and \<open>x\<close> is the double
  nearest to the mean.
\<close>

theorem calculateAverage_two_decimals:
  "calculateAverage [] = None \<and>
   (values \<noteq> [] \<longrightarrow>
    js_divide_by (foldl js_add (Finite 0) values) (length values) = Finite x \<longrightarrow>
    \<bar>x\<bar> < 10 ^ 21 \<longrightarrow>
      (\<exists>n. calculateAverage values =
              Some ((if x < 0 then ''-'' else [])
                    @ show_nat (n div 100) @ ''.'' @ [digit_char (n div 10), digit_char n]) \<and>
            set (show_nat (n div 100) @ [digit_char (n div 10), digit_char n])
              \<subseteq> set ''0123456789'' \<and>
            n = nat \<lfloor>\<bar>x\<bar> * 100 + 1 / 2\<rfloor> \<and>
            \<bar>of_nat n / 100 - \<bar>x\<bar>\<bar> \<le> 1 / 200)) \<and>
   (ns \<noteq> [] \<longrightarrow> sum_list ns \<le> 2 ^ 53 \<longrightarrow>
      calculateAverage (map (\<lambda>n. number_of_int (int n)) ns) =
        Some (toFixed (to_number (of_nat (sum_list ns) / of_nat (length ns))) 2))"
proof -
  define n where "n = nat \<lfloor>\<bar>x\<bar> * 100 + 1 / 2\<rfloor>"
  have d: "digit_char k \<in> set ''0123456789''" for k
    unfolding digit_char_def by (rule nth_mem) simp
  have digits: "set (show_nat (n div 100) @ [digit_char (n div 10), digit_char n])
              \<subseteq> set ''0123456789''"
    using show_nat_digits [of "n div 100"] d [of "n div 10"] d [of n] by simp
  have near: "\<bar>of_nat n / 100 - \<bar>x\<bar>\<bar> \<le> 1 / 200"
    unfolding n_def by (rule round_two_places) simp
  have shape: "calculateAverage values =
       Some ((if x < 0 then ''-'' else [])
             @ show_nat (n div 100) @ ''.'' @ [digit_char (n div 10), digit_char n])"
    if "values \<noteq> []"
      and "js_divide_by (foldl js_add (Finite 0) values) (length values) = Finite x"
      and "\<bar>x\<bar> < 10 ^ 21"
    using that toFixed_two [of x]
    by (simp add: calculateAverage_def n_def two_places_def)
  have exact: "calculateAverage (map (\<lambda>n. number_of_int (int n)) ns) =
        Some (toFixed (to_number (of_nat (sum_list ns) / of_nat (length ns))) 2)"
    if "ns \<noteq> []" and "sum_list ns \<le> 2 ^ 53"
    using that foldl_js_add_nats [of 0 ns]
    by (simp add: calculateAverage_def)
  have first: "values \<noteq> [] \<longrightarrow>
    js_divide_by (foldl js_add (Finite 0) values) (length values) = Finite x \<longrightarrow>
    \<bar>x\<bar> < 10 ^ 21 \<longrightarrow>
      (\<exists>n. calculateAverage values =
              Some ((if x < 0 then ''-'' else [])
                    @ show_nat (n div 100) @ ''.'' @ [digit_char (n div 10), digit_char n]) \<and>
            set (show_nat (n div 100) @ [digit_char (n div 10), digit_char n])
              \<subseteq> set ''0123456789'' \<and>
            n = nat \<lfloor>\<bar>x\<bar> * 100 + 1 / 2\<rfloor> \<and>
            \<bar>of_nat n / 100 - \<bar>x\<bar>\<bar> \<le> 1 / 200)"
    using shape digits near n_def by blast
  have empty: "calculateAverage [] = None"
    by (simp add: calculateAverage_def)
  from empty first exact show ?thesis by blast
qed

theorem calculateAverage_two_decimals_witness:
  "[Finite 1, Finite 2, Finite 2] \<noteq> [] \<and>
   js_divide_by (foldl js_add (Finite 0) [Finite 1, Finite 2, Finite 2])
      (length [Finite 1, Finite 2, Finite 2]) = Finite (7505999378950827 / 4503599627370496) \<and>
   \<bar>7505999378950827 / 4503599627370496 :: rat\<bar> < 10 ^ 21 \<and>
   calculateAverage [Finite 1, Finite 2, Finite 2] = Some ''1.67'' \<and>
   [1, 2, 2 :: nat] \<noteq> [] \<and> sum_list [1, 2, 2 :: nat] \<le> 2 ^ 53 \<and>
   calculateAverage (map (\<lambda>n. number_of_int (int n)) [1, 2, 2]) = Some ''1.67''"
proof -
  let ?v = "[Finite 1, Finite 2, Finite 2]"
  let ?x = "7505999378950827 / 4503599627370496 :: rat"
  have ne: "?v \<noteq> []" by simp
  have small: "\<bar>?x\<bar> < 10 ^ 21" by simp
  note calculateAverage_two_decimals [of ?v ?x, THEN conjunct2, THEN conjunct1, THEN mp, OF ne,
      THEN mp, OF mean_1_2_2, THEN mp, OF small]
  then obtain n where a: "calculateAverage ?v =
        Some ((if ?x < 0 then ''-'' else [])
              @ show_nat (n div 100) @ ''.'' @ [digit_char (n div 10), digit_char n])"
    and b: "n = nat \<lfloor>\<bar>?x\<bar> * 100 + 1 / 2\<rfloor>"
    by blast
  have n: "n = 167" unfolding b floor_167 by simp
  have first: "calculateAverage ?v = Some ''1.67''"
    unfolding a n by (simp add: show_nat_1 digit_char_def)
  have ne': "[1, 2, 2 :: nat] \<noteq> []" by simp
  have sum: "sum_list [1, 2, 2 :: nat] \<le> 2 ^ 53" by simp
  note calculateAverage_two_decimals [of _ _ "[1, 2, 2]", THEN conjunct2, THEN conjunct2,
      THEN mp, OF ne', THEN mp, OF sum]
  then have second: "calculateAverage (map (\<lambda>n. number_of_int (int n)) [1, 2, 2]) = Some ''1.67''"
    by (simp add: to_number_5_3 toFixed_5_3)
  from ne mean_1_2_2 small first ne' sum second show ?thesis by (intro conjI)
qed

lemma to_number_3_40: "to_number (3 / 40) = Finite (5404319552844595 / 72057594037927936)"
proof -
  have re: "round_even ((3 / 40 :: rat) * 2 ^ 4 * 2 ^ 52) = 5404319552844595"
    by (rule round_even_near) simp_all
  have "to_number (3 / 40) = Finite (of_int 5404319552844595 / 2 ^ 52 / 2 ^ 4)"
    by (rule to_number_fraction [OF _ _ _ re, of 1018]) simp_all
  then show ?thesis by simp
qed

lemma floor_3_40: "\<lfloor>\<bar>5404319552844595 / 72057594037927936 :: rat\<bar> * 100 + 1 / 2\<rfloor> = 7"
  by (rule floor_unique) simp_all

text \<open>
  The value printed is the hundredth nearest to the double, which need not be the one
  nearest to the exact mean: of forty durations that add up to 3 the mean is 0.075,
  the double nearest to it is a little below, and \<open>0.07\<close> is printed.
\<close>

lemma calculateAverage_3_40:
  "calculateAverage (Finite 3 # replicate 39 (Finite 0)) = Some ''0.07''"
proof -
  have z: "foldl js_add (Finite 3) (replicate 39 (Finite 0)) = Finite 3"
    using foldl_js_add_zeros [of 3 39] by simp
  have a: "calculateAverage (Finite 3 # replicate 39 (Finite 0))
        = Some (toFixed (Finite (5404319552844595 / 72057594037927936)) 2)"
    by (simp add: calculateAverage_def to_number_3 z to_number_3_40)
  have b: "toFixed (Finite (5404319552844595 / 72057594037927936)) 2 =
      (if (5404319552844595 / 72057594037927936 :: rat) < 0 then ''-'' else [])
      @ two_places (nat \<lfloor>\<bar>5404319552844595 / 72057594037927936 :: rat\<bar> * 100 + 1 / 2\<rfloor>)"
    by (rule toFixed_two) simp
  show ?thesis
    unfolding a b floor_3_40 by (simp add: two_places_def show_nat_small digit_char_def)
qed

end
